theory Spec2Isabelle
  imports Complex_Main "HOL-Library.Sublist"
begin

section \<open>The HBN-SSI data fetcher (data\_fetcher.py)\<close>

text \<open>
  A shallow embedding of \<^verbatim>\<open>src/data_fetcher/data_fetcher.py\<close>. The three
  functions of nilearn that the module calls (\<^verbatim>\<open>_fetch_files\<close>,
  \<^verbatim>\<open>_get_dataset_dir\<close>, \<^verbatim>\<open>csv_to_array\<close>) are parameters of the
  model: every theorem holds whatever they return. The Python built-ins the module uses
  (\<^verbatim>\<open>str.format\<close>, \<^verbatim>\<open>os.path.join\<close>, \<^verbatim>\<open>pathlib.Path\<close>,
  \<^verbatim>\<open>Path.mkdir\<close>, indexing with \<^verbatim>\<open>[0]\<close>, boolean-mask selection)
  are written out, each raise as an error value.
\<close>

subsection \<open>Errors\<close>

text \<open>
  The exceptions that the module's own expressions can raise, and \<open>Raised\<close> for an
  exception of a collaborator, by its class name. \<open>Unmodelled\<close> marks a format
  string outside the fragment of \<^verbatim>\<open>str.format\<close> written out below.
\<close>

datatype error =
    IndexError
  | ValueError
  | FileNotFoundError
  | FileExistsError
  | NotADirectoryError
  | Unmodelled
  | Raised string

subsection \<open>\<^verbatim>\<open>str.format\<close> with one positional argument\<close>

text \<open>
  \<^verbatim>\<open>template.format(a)\<close>: literal text is copied, \<^verbatim>\<open>{{\<close> and
  \<^verbatim>\<open>}}\<close> are escapes, \<^verbatim>\<open>{}\<close> is the next automatically numbered
  argument and \<^verbatim>\<open>{0}\<close> the argument with that index. A second automatic
  field or another index is out of range (IndexError), mixing both numberings and a
  single brace are ValueError. Fields with a name, a conversion or a format
  specification are not written out (\<open>Unmodelled\<close>), also those that Python accepts,
  such as \<^verbatim>\<open>{0!s}\<close>; the module's own templates and its default address
  have none, and the properties below that hold for every address template hold for
  whatever this function returns on it.
\<close>

datatype numbering = Unset | Auto | Manual

definition field :: "numbering \<Rightarrow> string \<Rightarrow> error + numbering" where
  "field m f =
     (if f = [] then
        (case m of Unset \<Rightarrow> Inr Auto | Auto \<Rightarrow> Inl IndexError | Manual \<Rightarrow> Inl ValueError)
      else if list_all (\<lambda>c. c \<in> set ''0123456789'') f then
        (if m = Auto then Inl ValueError
         else if list_all (\<lambda>c. c = CHR ''0'') f then Inr Manual
         else Inl IndexError)
      else Inl Unmodelled)"

definition emit :: "string \<Rightarrow> error + string \<Rightarrow> error + string" where
  "emit s r = (case r of Inl e \<Rightarrow> Inl e | Inr t \<Rightarrow> Inr (s @ t))"

fun fmt :: "numbering \<Rightarrow> string option \<Rightarrow> string \<Rightarrow> string \<Rightarrow> error + string" where
  "fmt m None [] a = Inr []"
| "fmt m (Some f) [] a = Inl ValueError"
| "fmt m None (c # cs) a =
     (if c = CHR ''{'' then
        (case cs of
           [] \<Rightarrow> Inl ValueError
         | d # r \<Rightarrow> if d = CHR ''{'' then emit [CHR ''{''] (fmt m None r a)
                    else fmt m (Some []) cs a)
      else if c = CHR ''}'' then
        (case cs of
           [] \<Rightarrow> Inl ValueError
         | d # r \<Rightarrow> if d = CHR ''}'' then emit [CHR ''}''] (fmt m None r a)
                    else Inl ValueError)
      else emit [c] (fmt m None cs a))"
| "fmt m (Some f) (c # cs) a =
     (if c = CHR ''}'' then
        (case field m f of
           Inl e \<Rightarrow> Inl e
         | Inr m' \<Rightarrow> emit a (fmt m' None cs a))
      else fmt m (Some (f @ [c])) cs a)"

definition format :: "string \<Rightarrow> string \<Rightarrow> error + string" where
  "format template a = fmt Unset None template a"

subsection \<open>Paths\<close>

text \<open>
  \<^verbatim>\<open>os.path.join(a, b)\<close> on POSIX: an absolute \<open>b\<close> replaces \<open>a\<close>, otherwise
  the two are joined with one separator unless \<open>a\<close> is empty or ends with one.
\<close>

definition os_path_join :: "string \<Rightarrow> string \<Rightarrow> string" where
  "os_path_join a b =
     (if b \<noteq> [] \<and> hd b = CHR ''/'' then b
      else if a = [] \<or> last a = CHR ''/'' then a @ b
      else a @ ''/'' @ b)"

text \<open>
  A \<^verbatim>\<open>pathlib.PurePosixPath\<close>: its root (\<^verbatim>\<open>''\<close> for a relative path,
  \<^verbatim>\<open>/\<close> or \<^verbatim>\<open>//\<close>) and its components. Two path objects are equal when both
  agree. Parsing a string drops empty components and \<^verbatim>\<open>.\<close> components, so
  \<^verbatim>\<open>a//b\<close>, \<^verbatim>\<open>a/./b\<close> and \<^verbatim>\<open>a/b\<close> are the same path;
  \<^verbatim>\<open>..\<close> is kept as a component.
\<close>

record pure_path =
  anchor :: string
  names :: "string list"

datatype fname = Str string | PathObj pure_path

fun split_sep :: "string \<Rightarrow> string list" where
  "split_sep [] = [[]]"
| "split_sep (c # cs) =
     (if c = CHR ''/'' then [] # split_sep cs
      else (case split_sep cs of
              [] \<Rightarrow> [[c]]
            | x # xs \<Rightarrow> (c # x) # xs))"

definition splitroot :: "string \<Rightarrow> string \<times> string" where
  "splitroot part =
     (if part \<noteq> [] \<and> hd part = CHR ''/'' then
        (let stripped = dropWhile (\<lambda>c. c = CHR ''/'') part
         in (if length part - length stripped = 2 then ''//'' else ''/'', stripped))
      else ('''', part))"

definition parse_part :: "string \<Rightarrow> pure_path" where
  "parse_part part =
     (case splitroot part of
        (r, rel) \<Rightarrow>
          \<lparr>anchor = r,
           names = filter (\<lambda>x. x \<noteq> [] \<and> x \<noteq> ''.'') (split_sep rel)\<rparr>)"

definition as_path :: "fname \<Rightarrow> pure_path" where
  "as_path a = (case a of Str s \<Rightarrow> parse_part s | PathObj p \<Rightarrow> p)"

definition joinpath :: "pure_path \<Rightarrow> pure_path \<Rightarrow> pure_path" where
  "joinpath p q =
     (if anchor q \<noteq> [] then q
      else \<lparr>anchor = anchor p, names = names p @ names q\<rparr>)"

text \<open>\<^verbatim>\<open>Path(a, b)\<close>, each argument a string or a path object.\<close>

definition Path :: "fname \<Rightarrow> fname \<Rightarrow> pure_path" where
  "Path a b = joinpath (as_path a) (as_path b)"

definition parent :: "pure_path \<Rightarrow> pure_path" where
  "parent p = p\<lparr>names := butlast (names p)\<rparr>"

subsection \<open>The file system and \<^verbatim>\<open>Path.mkdir\<close>\<close>

text \<open>
  The directory tree is a map from paths to the kind of entry there; a path with no
  component (the root, or the working directory of a relative path) is always a
  directory. Permissions and symbolic links are not part of the model.
\<close>

datatype node = Dir | File

type_synonym filesystem = "pure_path \<Rightarrow> node option"

definition exists_path :: "filesystem \<Rightarrow> pure_path \<Rightarrow> bool" where
  "exists_path t p = (names p = [] \<or> t p \<noteq> None)"

definition is_dir :: "filesystem \<Rightarrow> pure_path \<Rightarrow> bool" where
  "is_dir t p = (names p = [] \<or> t p = Some Dir)"

text \<open>
  \<^verbatim>\<open>os.mkdir\<close>: the parent must exist and be a directory, and the path itself
  must not exist.
\<close>

definition os_mkdir :: "filesystem \<Rightarrow> pure_path \<Rightarrow> error + filesystem" where
  "os_mkdir t p =
     (if names p = [] then Inl FileExistsError
      else if \<not> exists_path t (parent p) then Inl FileNotFoundError
      else if \<not> is_dir t (parent p) then Inl NotADirectoryError
      else if exists_path t p then Inl FileExistsError
      else Inr (t(p \<mapsto> Dir)))"

text \<open>
  \<^verbatim>\<open>Path.mkdir(parents=False, exist_ok=True)\<close>, the call that ends the recursion
  of the next function: a missing parent is an error, any other failure is ignored when
  the path is a directory.
\<close>

definition mkdir_exist_ok :: "filesystem \<Rightarrow> pure_path \<Rightarrow> error + filesystem" where
  "mkdir_exist_ok t p =
     (case os_mkdir t p of
        Inr t' \<Rightarrow> Inr t'
      | Inl e \<Rightarrow>
          if e = FileNotFoundError then Inl e
          else if \<not> is_dir t p then Inl e
          else Inr t)"

text \<open>
  \<^verbatim>\<open>Path.mkdir(parents=True, exist_ok=True)\<close>: when the parent is missing, the
  parents are made first and the directory after them.
\<close>

function mkdir :: "filesystem \<Rightarrow> pure_path \<Rightarrow> error + filesystem" where
  "mkdir t p =
     (case os_mkdir t p of
        Inr t' \<Rightarrow> Inr t'
      | Inl e \<Rightarrow>
          if e = FileNotFoundError then
            (if parent p = p then Inl e
             else (case mkdir t (parent p) of
                     Inl e' \<Rightarrow> Inl e'
                   | Inr t' \<Rightarrow> mkdir_exist_ok t' p))
          else if \<not> is_dir t p then Inl e
          else Inr t)"
  by pat_completeness auto

termination
proof (relation "measure (\<lambda>(t, p). length (names p))")
  show "wf (measure (\<lambda>(t, p). length (names p)))"
    by simp
next
  fix t :: filesystem and p :: pure_path and e :: error
  assume "parent p \<noteq> p"
  then have "names p \<noteq> []"
    by (cases "names p") (auto simp: parent_def)
  then show "((t, parent p), (t, p)) \<in> measure (\<lambda>(t, p). length (names p))"
    by (simp add: parent_def)
qed

declare mkdir.simps [simp del]

subsection \<open>The world, the calls and the collaborators\<close>

text \<open>
  The arguments of one call \<^verbatim>\<open>_fetch_files(data_dir, files, resume=.., verbose=..)\<close>.
  Each file is the tuple \<^verbatim>\<open>(name, url, {'move': target})\<close>. \<open>fc_resume\<close> is
  \<open>None\<close> when the call does not pass the keyword, so that the default of
  \<^verbatim>\<open>_fetch_files\<close> applies.
\<close>

type_synonym file_spec = "fname \<times> string \<times> fname"

record fetch_call =
  fc_data_dir :: string
  fc_files :: "file_spec list"
  fc_resume :: "bool option"
  fc_verbose :: int

datatype event =
    GetDatasetDir string "string option" int
  | FetchFiles fetch_call
  | CsvToArray string
  | Mkdir pure_path

text \<open>
  The state that the calls share: the directory tree and the calls issued so far,
  oldest first.
\<close>

record world =
  fs :: filesystem
  log :: "event list"

text \<open>The rows of the two tables.\<close>

record participant =
  sid :: string
  age :: real
  gender :: string
  handedness :: string

record osf_row =
  col_sid :: string
  col_raiders :: string
  col_flanker :: string
  col_condition :: string
  col_run :: string

text \<open>
  The collaborators. Each sees the world it is called in (so its answer may depend on
  the tree and on every earlier call); the two that write return the tree they leave.
  \<open>csv_participants\<close> and \<open>csv_osf\<close> are \<^verbatim>\<open>csv_to_array\<close> at the two
  column schemas of the module, an array as the list of its rows;
  \<open>package_directory\<close> is the directory of the module's file.
\<close>

record env =
  fetch_files :: "world \<Rightarrow> fetch_call \<Rightarrow> (error + string list) \<times> filesystem"
  get_dataset_dir :: "world \<Rightarrow> string \<Rightarrow> string option \<Rightarrow> int \<Rightarrow> (error + string) \<times> filesystem"
  csv_participants :: "world \<Rightarrow> string \<Rightarrow> error + participant list"
  csv_osf :: "world \<Rightarrow> string \<Rightarrow> error + osf_row list"
  package_directory :: string

text \<open>A computation in the world that returns a value or raises.\<close>

type_synonym 'a run = "world \<Rightarrow> (error + 'a) \<times> world"

definition bind :: "'a run \<Rightarrow> ('a \<Rightarrow> 'b run) \<Rightarrow> 'b run" where
  "bind m f w = (case m w of (Inl e, w') \<Rightarrow> (Inl e, w') | (Inr x, w') \<Rightarrow> f x w')"

definition return :: "'a \<Rightarrow> 'a run" where
  "return x w = (Inr x, w)"

definition lift :: "error + 'a \<Rightarrow> 'a run" where
  "lift r w = (r, w)"

text \<open>\<^verbatim>\<open>xs[0]\<close>\<close>

definition index0 :: "'a list \<Rightarrow> error + 'a" where
  "index0 xs = (case xs of [] \<Rightarrow> Inl IndexError | x # _ \<Rightarrow> Inr x)"

definition call_fetch_files :: "env \<Rightarrow> fetch_call \<Rightarrow> string list run" where
  "call_fetch_files E c w =
     (case fetch_files E w c of
        (r, t) \<Rightarrow> (r, \<lparr>fs = t, log = log w @ [FetchFiles c]\<rparr>))"

definition call_get_dataset_dir :: "env \<Rightarrow> string \<Rightarrow> string option \<Rightarrow> int \<Rightarrow> string run" where
  "call_get_dataset_dir E name data_dir verbose w =
     (case get_dataset_dir E w name data_dir verbose of
        (r, t) \<Rightarrow> (r, \<lparr>fs = t, log = log w @ [GetDatasetDir name data_dir verbose]\<rparr>))"

definition call_csv_participants :: "env \<Rightarrow> string \<Rightarrow> participant list run" where
  "call_csv_participants E path w =
     (csv_participants E w path, w\<lparr>log := log w @ [CsvToArray path]\<rparr>)"

definition call_csv_osf :: "env \<Rightarrow> string \<Rightarrow> osf_row list run" where
  "call_csv_osf E path w =
     (csv_osf E w path, w\<lparr>log := log w @ [CsvToArray path]\<rparr>)"

definition call_mkdir :: "pure_path \<Rightarrow> unit run" where
  "call_mkdir p w =
     (case mkdir (fs w) p of
        Inl e \<Rightarrow> (Inl e, w\<lparr>log := log w @ [Mkdir p]\<rparr>)
      | Inr t \<Rightarrow> (Inr (), \<lparr>fs = t, log = log w @ [Mkdir p]\<rparr>))"

subsection \<open>\<^verbatim>\<open>_fetch_hbnssi_participants\<close> and \<^verbatim>\<open>_fetch_hbnssi_brain_mask\<close>\<close>

definition fetch_hbnssi_participants ::
  "env \<Rightarrow> string \<Rightarrow> string option \<Rightarrow> int \<Rightarrow> participant list run" where
  "fetch_hbnssi_participants E data_dir url verbose =
     (let url = (case url of None \<Rightarrow> ''https://osf.io/wtvh3/download'' | Some u \<Rightarrow> u);
          files = [(Str ''participants.csv'', url, Str ''participants.csv'')]
      in bind (call_fetch_files E
                 \<lparr>fc_data_dir = data_dir, fc_files = files, fc_resume = None,
                  fc_verbose = verbose\<rparr>)
           (\<lambda>paths. bind (lift (index0 paths))
           (\<lambda>path_to_participants. call_csv_participants E path_to_participants)))"

definition target_fname :: string where
  "target_fname = ''tpl-MNI152NLin2009cAsym_res-3mm_label-GM_desc-thr02_probseg.nii.gz''"

definition fetch_hbnssi_brain_mask ::
  "env \<Rightarrow> string \<Rightarrow> string option \<Rightarrow> int \<Rightarrow> string run" where
  "fetch_hbnssi_brain_mask E data_dir url verbose =
     (let url = (case url of None \<Rightarrow> ''https://osf.io/kp6m9/download'' | Some u \<Rightarrow> u);
          files = [(Str target_fname, url, Str target_fname)]
      in bind (call_fetch_files E
                 \<lparr>fc_data_dir = data_dir, fc_files = files, fc_resume = None,
                  fc_verbose = verbose\<rparr>)
           (\<lambda>paths. lift (index0 paths)))"

subsection \<open>\<^verbatim>\<open>_fetch_hbnssi_functional\<close>\<close>

definition raiders :: string where
  "raiders = ''sub-{0}_task-RAIDERS_space-MNI152NLin2009cAsym_desc-postproc_bold.nii.gz''"

definition flanker :: string where
  "flanker = ''sub-{0}_task-FLANKERTASK_space-MNI152NLin2009cAsym_desc-postproc_bold.nii.gz''"

definition conditions :: string where
  "conditions = ''sub-{0}_labels.csv''"

definition runs :: string where
  "runs = ''sub-{0}_runs.csv''"

text \<open>
  One of the four download blocks of the loop body, with the column of the lookup
  table and the file name template that the block uses:
  \<^verbatim>\<open>
  x_url = url.format(this_osf_id[column][0])
  x_target = Path(derivatives_dir, template.format(sid))
  x_file = [(x_target, x_url, {'move': x_target})]
  path_to_x = _fetch_files(data_dir, x_file, verbose=verbose)[0]
  \<close>
  \<open>request\<close> is the part before the call: it raises when the selection is empty or a
  format string is malformed, and then nothing is requested.
\<close>

definition request ::
  "string \<Rightarrow> string \<Rightarrow> int \<Rightarrow> pure_path \<Rightarrow> osf_row list \<Rightarrow> (osf_row \<Rightarrow> string) \<Rightarrow>
   string \<Rightarrow> string \<Rightarrow> error + fetch_call" where
  "request data_dir url verbose derivatives_dir this_osf_id column template s =
     (case index0 (map column this_osf_id) of
        Inl e \<Rightarrow> Inl e
      | Inr key \<Rightarrow>
          (case format url key of
             Inl e \<Rightarrow> Inl e
           | Inr x_url \<Rightarrow>
               (case format template s of
                  Inl e \<Rightarrow> Inl e
                | Inr name \<Rightarrow>
                    (let x_target = Path (PathObj derivatives_dir) (Str name)
                     in Inr \<lparr>fc_data_dir = data_dir,
                             fc_files = [(PathObj x_target, x_url, PathObj x_target)],
                             fc_resume = None,
                             fc_verbose = verbose\<rparr>))))"

definition download ::
  "env \<Rightarrow> string \<Rightarrow> string \<Rightarrow> int \<Rightarrow> pure_path \<Rightarrow> osf_row list \<Rightarrow> (osf_row \<Rightarrow> string) \<Rightarrow>
   string \<Rightarrow> string \<Rightarrow> string run" where
  "download E data_dir url verbose derivatives_dir this_osf_id column template s =
     bind (lift (request data_dir url verbose derivatives_dir this_osf_id column template s))
       (\<lambda>c. bind (call_fetch_files E c)
       (\<lambda>paths. lift (index0 paths)))"

text \<open>The four lists that the loop appends to.\<close>

record lists =
  align :: "string list"
  decode :: "string list"
  labels :: "string list"
  sessions :: "string list"

text \<open>The body of the loop, for one subject id.\<close>

definition loop_body ::
  "env \<Rightarrow> string \<Rightarrow> string \<Rightarrow> int \<Rightarrow> pure_path \<Rightarrow> osf_row list \<Rightarrow> string \<Rightarrow> lists \<Rightarrow>
   lists run" where
  "loop_body E data_dir url verbose derivatives_dir osf_data s acc =
     (let this_osf_id = filter (\<lambda>r. col_sid r = s) osf_data
      in bind (download E data_dir url verbose derivatives_dir this_osf_id col_raiders raiders s)
           (\<lambda>path_to_raiders.
         bind (download E data_dir url verbose derivatives_dir this_osf_id col_flanker flanker s)
           (\<lambda>path_to_flanker.
         bind (download E data_dir url verbose derivatives_dir this_osf_id col_condition conditions s)
           (\<lambda>path_to_labels.
         bind (download E data_dir url verbose derivatives_dir this_osf_id col_run runs s)
           (\<lambda>path_to_sessions.
         return \<lparr>align = align acc @ [path_to_raiders],
                 decode = decode acc @ [path_to_flanker],
                 labels = labels acc @ [path_to_labels],
                 sessions = sessions acc @ [path_to_sessions]\<rparr>)))))"

text \<open>\<^verbatim>\<open>for sid in participants['sid']\<close>\<close>

fun loop ::
  "env \<Rightarrow> string \<Rightarrow> string \<Rightarrow> int \<Rightarrow> pure_path \<Rightarrow> osf_row list \<Rightarrow> string list \<Rightarrow> lists \<Rightarrow>
   lists run" where
  "loop E data_dir url verbose derivatives_dir osf_data [] acc = return acc"
| "loop E data_dir url verbose derivatives_dir osf_data (s # ss) acc =
     bind (loop_body E data_dir url verbose derivatives_dir osf_data s acc)
       (\<lambda>acc'. loop E data_dir url verbose derivatives_dir osf_data ss acc')"

definition fetch_hbnssi_functional ::
  "env \<Rightarrow> participant list \<Rightarrow> string \<Rightarrow> string option \<Rightarrow> bool \<Rightarrow> int \<Rightarrow> pure_path run" where
  "fetch_hbnssi_functional E participants data_dir url resume verbose =
     (let url = (case url of None \<Rightarrow> ''https://osf.io/download/{}/'' | Some u \<Rightarrow> u)
      in bind (call_csv_osf E (os_path_join (package_directory E) ''hbnssi.csv''))
           (\<lambda>osf_data.
         let derivatives_dir = Path (Str data_dir) (Str ''derivatives'')
         in bind (loop E data_dir url verbose derivatives_dir osf_data (map sid participants)
                    \<lparr>align = [], decode = [], labels = [], sessions = []\<rparr>)
              (\<lambda>acc. return derivatives_dir)))"

subsection \<open>\<^verbatim>\<open>fetch_hbnssi\<close>\<close>

text \<open>
  The \<^verbatim>\<open>Bunch\<close> that is returned; its field \<^verbatim>\<open>mask\<close> is \<open>mask_file\<close>
  here.
\<close>

record bunch =
  subjects :: "string list"
  mask_file :: string
  task_dir :: pure_path
  out_dir :: pure_path
  mask_cache :: pure_path

text \<open>
  The two \<^verbatim>\<open>mkdir(parents=True, exist_ok=True)\<close> lines of \<^verbatim>\<open>fetch_hbnssi\<close>
  and the two paths they bind.
\<close>

definition create_dirs :: "string \<Rightarrow> (pure_path \<times> pure_path) run" where
  "create_dirs data_dir =
     bind (call_mkdir (Path (Str data_dir) (Str ''decoding'')))
       (\<lambda>_. let out_dir = Path (Str data_dir) (Str ''decoding'')
         in bind (call_mkdir (Path (Str data_dir) (Str ''mask_cache'')))
              (\<lambda>_. let mask_cache = Path (Str data_dir) (Str ''mask_cache'')
                in return (out_dir, mask_cache)))"

definition fetch_hbnssi :: "env \<Rightarrow> string option \<Rightarrow> bool \<Rightarrow> int \<Rightarrow> bunch run" where
  "fetch_hbnssi E data_dir resume verbose =
     (let dataset_name = ''hbnssi''
      in bind (call_get_dataset_dir E dataset_name data_dir 1)
           (\<lambda>data_dir.
         bind (fetch_hbnssi_participants E data_dir None verbose)
           (\<lambda>participants.
         bind (fetch_hbnssi_brain_mask E data_dir None verbose)
           (\<lambda>brain_mask.
         bind (fetch_hbnssi_functional E participants data_dir None resume verbose)
           (\<lambda>derivatives_dir.
         bind (create_dirs data_dir)
           (\<lambda>(out_dir, mask_cache).
         return \<lparr>subjects = map sid participants, mask_file = brain_mask,
                 task_dir = derivatives_dir, out_dir = out_dir,
                 mask_cache = mask_cache\<rparr>))))))"

subsection \<open>The requests of a run\<close>

text \<open>
  The four requests that the loop body prepares for one subject, in the order of its
  four blocks.
\<close>

definition subject_requests ::
  "string \<Rightarrow> string \<Rightarrow> int \<Rightarrow> pure_path \<Rightarrow> osf_row list \<Rightarrow> string \<Rightarrow>
   (error + fetch_call) list" where
  "subject_requests data_dir url verbose derivatives_dir osf_data s =
     (let this_osf_id = filter (\<lambda>r. col_sid r = s) osf_data
      in [request data_dir url verbose derivatives_dir this_osf_id col_raiders raiders s,
          request data_dir url verbose derivatives_dir this_osf_id col_flanker flanker s,
          request data_dir url verbose derivatives_dir this_osf_id col_condition conditions s,
          request data_dir url verbose derivatives_dir this_osf_id col_run runs s])"

text \<open>The requests of a list up to the first one that raises.\<close>

fun until_error :: "(error + 'a) list \<Rightarrow> 'a list" where
  "until_error [] = []"
| "until_error (Inl e # rs) = []"
| "until_error (Inr c # rs) = c # until_error rs"

text \<open>
  Issuing a list of prepared requests one after the other, each followed by
  \<^verbatim>\<open>[0]\<close> on what the collaborator returns; the first failure ends it.
\<close>

fun run_requests :: "env \<Rightarrow> (error + fetch_call) list \<Rightarrow> string list run" where
  "run_requests E [] = return []"
| "run_requests E (r # rs) =
     bind (lift r)
       (\<lambda>c. bind (call_fetch_files E c)
       (\<lambda>paths. bind (lift (index0 paths))
       (\<lambda>p. bind (run_requests E rs)
       (\<lambda>ps. return (p # ps)))))"

text \<open>A result without its value: the error raised, if any, and the world left.\<close>

definition outcome :: "(error + 'a) \<times> world \<Rightarrow> error option \<times> world" where
  "outcome x = (case x of (Inl e, w) \<Rightarrow> (Some e, w) | (Inr v, w) \<Rightarrow> (None, w))"

text \<open>The names that a call asks for, and the addresses it asks them from.\<close>

definition targets :: "fetch_call \<Rightarrow> fname list" where
  "targets c = map fst (fc_files c)"

definition urls :: "fetch_call \<Rightarrow> string list" where
  "urls c = map (\<lambda>(f, u, m). u) (fc_files c)"

text \<open>The calls of \<^verbatim>\<open>_fetch_files\<close> in a log.\<close>

fun fetch_calls :: "event list \<Rightarrow> fetch_call list" where
  "fetch_calls [] = []"
| "fetch_calls (FetchFiles c # es) = c # fetch_calls es"
| "fetch_calls (e # es) = fetch_calls es"

text \<open>Every prefix of a path, the path itself last.\<close>

definition ancestors :: "pure_path \<Rightarrow> pure_path list" where
  "ancestors p = map (\<lambda>k. p\<lparr>names := take k (names p)\<rparr>) [0..<Suc (length (names p))]"

subsection \<open>Directory trees\<close>

text \<open>
  \<open>can_make t p\<close>: nothing on the way from the root to \<open>p\<close> is a file, and
  whatever exists on that way has a parent that exists, as in every directory tree.
  \<open>only_adds_dirs t t' ps\<close>: the tree \<open>t'\<close> is \<open>t\<close> with new directories at some
  of the paths \<open>ps\<close> and nothing else changed.
\<close>

definition can_make :: "filesystem \<Rightarrow> pure_path \<Rightarrow> bool" where
  "can_make t p =
     list_all (\<lambda>q. t q \<noteq> Some File \<and> (exists_path t q \<longrightarrow> exists_path t (parent q)))
       (ancestors p)"


subsection \<open>The Path Deriver of the specification\<close>

text \<open>
  The code has no function of its own for the local path of an artifact: each download
  block builds it inline. For the comparison, \<open>derive\<close> is written from the
  specification's words (section 4.3, and the layout of section 6): the four artifact
  kinds, and the path of a subject's artifact of a kind as the derivatives directory of
  the dataset root joined with the file name of the kind, the subject id substituted.
\<close>

datatype kind = Raiders | Flanker | Condition | Run

definition file_name :: "kind \<Rightarrow> string \<Rightarrow> string" where
  "file_name k s =
     ''sub-'' @ s @
     (case k of
        Raiders \<Rightarrow> ''_task-RAIDERS_space-MNI152NLin2009cAsym_desc-postproc_bold.nii.gz''
      | Flanker \<Rightarrow> ''_task-FLANKERTASK_space-MNI152NLin2009cAsym_desc-postproc_bold.nii.gz''
      | Condition \<Rightarrow> ''_labels.csv''
      | Run \<Rightarrow> ''_runs.csv'')"

definition derive :: "string \<Rightarrow> string \<Rightarrow> kind \<Rightarrow> pure_path" where
  "derive data_dir s k =
     Path (PathObj (Path (Str data_dir) (Str ''derivatives''))) (Str (file_name k s))"


subsection \<open>Example inputs\<close>

text \<open>
  A collaborator that downloads every file it is asked for and returns its path under
  the data directory, and one that fails on one address.
\<close>

definition posix :: "pure_path \<Rightarrow> string" where
  "posix p =
     anchor p @ concat (case names p of [] \<Rightarrow> [] | x # xs \<Rightarrow> x # map (\<lambda>n. ''/'' @ n) xs)"

definition shown :: "fname \<Rightarrow> string" where
  "shown f = (case f of Str s \<Rightarrow> s | PathObj p \<Rightarrow> posix p)"

definition example_env :: "participant list \<Rightarrow> osf_row list \<Rightarrow> env" where
  "example_env ps rows =
     \<lparr>fetch_files =
        (\<lambda>w c. (Inr (map (\<lambda>(f, u, m). os_path_join (fc_data_dir c) (shown m)) (fc_files c)),
                 fs w)),
      get_dataset_dir =
        (\<lambda>w name d v.
           (Inr (os_path_join (case d of None \<Rightarrow> ''/home/nilearn_data'' | Some x \<Rightarrow> x) name),
            fs w)),
      csv_participants = (\<lambda>w path. Inr ps),
      csv_osf = (\<lambda>w path. Inr rows),
      package_directory = ''/pkg/data_fetcher''\<rparr>"

definition failing_env :: "participant list \<Rightarrow> osf_row list \<Rightarrow> string \<Rightarrow> env" where
  "failing_env ps rows bad =
     (example_env ps rows)
       \<lparr>fetch_files :=
          (\<lambda>w c. if bad \<in> set (urls c) then (Inl (Raised ''URLError''), fs w)
                  else fetch_files (example_env ps rows) w c)\<rparr>"

definition empty_world :: world where
  "empty_world = \<lparr>fs = Map.empty, log = []\<rparr>"

definition no_lists :: lists where
  "no_lists = \<lparr>align = [], decode = [], labels = [], sessions = []\<rparr>"

definition subject :: "string \<Rightarrow> participant" where
  "subject s = \<lparr>sid = s, age = 10, gender = ''F'', handedness = ''R''\<rparr>"

definition keys :: "string \<Rightarrow> string \<Rightarrow> string \<Rightarrow> string \<Rightarrow> string \<Rightarrow> osf_row" where
  "keys s a b c d =
     \<lparr>col_sid = s, col_raiders = a, col_flanker = b, col_condition = c, col_run = d\<rparr>"

definition two_rows :: "osf_row list" where
  "two_rows =
     [keys ''A001'' ''k1'' ''k2'' ''k3'' ''k4'', keys ''A002'' ''m1'' ''m2'' ''m3'' ''m4'']"

definition two_subjects :: "participant list" where
  "two_subjects = [subject ''A001'', subject ''A002'']"

definition derivatives :: pure_path where
  "derivatives = \<lparr>anchor = ''/'', names = [''d'', ''derivatives'']\<rparr>"


definition decoding_path :: pure_path where
  "decoding_path = \<lparr>anchor = ''/'', names = [''d'', ''hbnssi'', ''decoding'']\<rparr>"

definition mask_cache_path :: pure_path where
  "mask_cache_path = \<lparr>anchor = ''/'', names = [''d'', ''hbnssi'', ''mask_cache'']\<rparr>"

section \<open>Properties\<close>

subsection \<open>Runs of requests\<close>

lemma outcome_simps:
  "outcome (Inl e, w) = (Some e, w)" "outcome (Inr v, w) = (None, w)"
  by (simp_all add: outcome_def)

lemma log_call_fetch_files: "log (snd (call_fetch_files E c w)) = log w @ [FetchFiles c]"
  by (simp add: call_fetch_files_def split: prod.splits)

lemma run_requests_Cons:
  "run_requests E (r # rs) w =
     (case r of
        Inl e \<Rightarrow> (Inl e, w)
      | Inr c \<Rightarrow>
          (case call_fetch_files E c w of
             (Inl e, w') \<Rightarrow> (Inl e, w')
           | (Inr paths, w') \<Rightarrow>
               (case paths of
                  [] \<Rightarrow> (Inl IndexError, w')
                | p # _ \<Rightarrow>
                    (case run_requests E rs w' of
                       (Inl e, w'') \<Rightarrow> (Inl e, w'')
                     | (Inr ps, w'') \<Rightarrow> (Inr (p # ps), w'')))))"
  by (simp add: bind_def lift_def return_def index0_def split: sum.splits prod.splits list.splits)

declare run_requests.simps(2) [simp del]

lemma run_requests_append:
  "run_requests E (rs1 @ rs2) w =
     (case run_requests E rs1 w of
        (Inl e, w') \<Rightarrow> (Inl e, w')
      | (Inr ps, w') \<Rightarrow>
          (case run_requests E rs2 w' of
             (Inl e, w'') \<Rightarrow> (Inl e, w'')
           | (Inr qs, w'') \<Rightarrow> (Inr (ps @ qs), w'')))"
proof (induction rs1 arbitrary: w)
  case Nil
  show ?case by (simp add: return_def split: prod.splits sum.splits)
next
  case (Cons r rs1)
  show ?case
    by (simp add: run_requests_Cons Cons.IH split: sum.splits prod.splits list.splits)
qed

lemma run_requests_log:
  "\<exists>k. log (snd (run_requests E rs w)) = log w @ map FetchFiles (take k (until_error rs))"
proof (induction rs arbitrary: w)
  case Nil
  show ?case by (simp add: return_def)
next
  case (Cons r rs)
  show ?case
  proof (cases r)
    case (Inl e)
    then show ?thesis by (simp add: run_requests_Cons)
  next
    case (Inr c)
    obtain res w1 where c1: "call_fetch_files E c w = (res, w1)" by fastforce
    have l1: "log w1 = log w @ [FetchFiles c]"
      using log_call_fetch_files [of E c w] c1 by simp
    show ?thesis
    proof (cases "\<exists>p ps. res = Inr (p # ps)")
      case True
      then obtain p ps where r: "res = Inr (p # ps)" by blast
      from Cons.IH [of w1] obtain k where
        k: "log (snd (run_requests E rs w1)) = log w1 @ map FetchFiles (take k (until_error rs))"
        by blast
      have "log (snd (run_requests E (r # rs) w)) = log (snd (run_requests E rs w1))"
        using Inr c1 r by (simp add: run_requests_Cons split: prod.splits sum.splits)
      also have "\<dots> = log w @ map FetchFiles (take (Suc k) (until_error (r # rs)))"
        using k l1 Inr by simp
      finally show ?thesis by blast
    next
      case False
      then have "log (snd (run_requests E (r # rs) w)) = log w1"
        using Inr c1 by (cases res; simp add: run_requests_Cons split: list.splits)
      also have "\<dots> = log w @ map FetchFiles (take 1 (until_error (r # rs)))"
        using l1 Inr by simp
      finally show ?thesis by blast
    qed
  qed
qed

lemma run_requests_ok:
  "run_requests E rs w = (Inr ps, w') \<Longrightarrow>
     rs = map Inr (until_error rs) \<and> length ps = length rs \<and>
     log w' = log w @ map FetchFiles (until_error rs)"
proof (induction rs arbitrary: w ps)
  case Nil
  then show ?case by (simp add: return_def)
next
  case (Cons r rs)
  from Cons.prems obtain c where r: "r = Inr c"
    by (cases r) (simp_all add: run_requests_Cons)
  obtain res w1 where c1: "call_fetch_files E c w = (res, w1)" by fastforce
  have l1: "log w1 = log w @ [FetchFiles c]"
    using log_call_fetch_files [of E c w] c1 by simp
  from Cons.prems r c1 obtain p rest qs where
    q: "run_requests E rs w1 = (Inr qs, w')" and ps: "ps = p # qs"
    by (auto simp add: run_requests_Cons split: sum.splits list.splits prod.splits)
  from Cons.IH [OF q] show ?case
    using r l1 ps by simp
qed

lemma loop_body_run:
  "loop_body E data_dir url verbose derivatives_dir osf_data s acc w =
     (case run_requests E (subject_requests data_dir url verbose derivatives_dir osf_data s) w of
        (Inl e, w') \<Rightarrow> (Inl e, w')
      | (Inr ps, w') \<Rightarrow>
          (Inr \<lparr>align = align acc @ [ps ! 0], decode = decode acc @ [ps ! 1],
                labels = labels acc @ [ps ! 2], sessions = sessions acc @ [ps ! 3]\<rparr>, w'))"
  by (simp add: loop_body_def subject_requests_def download_def bind_def lift_def return_def
      index0_def run_requests.simps(2) Let_def split: sum.splits prod.splits list.splits)

lemma outcome_loop_body:
  "outcome (loop_body E data_dir url verbose derivatives_dir osf_data s acc w) =
   outcome (run_requests E (subject_requests data_dir url verbose derivatives_dir osf_data s) w)"
  by (simp add: loop_body_run outcome_def split: prod.splits sum.splits)

lemma outcome_run_requests_append:
  "outcome (run_requests E (rs1 @ rs2) w) =
     (case outcome (run_requests E rs1 w) of
        (Some e, w') \<Rightarrow> (Some e, w')
      | (None, w') \<Rightarrow> outcome (run_requests E rs2 w'))"
  by (simp add: run_requests_append outcome_def split: prod.splits sum.splits)

lemma outcome_loop:
  "outcome (loop E data_dir url verbose derivatives_dir osf_data ss acc w) =
   outcome (run_requests E
     (concat (map (subject_requests data_dir url verbose derivatives_dir osf_data) ss)) w)"
proof (induction ss arbitrary: acc w)
  case Nil
  show ?case by (simp add: return_def outcome_def)
next
  case (Cons s ss)
  let ?rs = "subject_requests data_dir url verbose derivatives_dir osf_data s"
  obtain r w1 where b: "loop_body E data_dir url verbose derivatives_dir osf_data s acc w = (r, w1)"
    by fastforce
  show ?case
  proof (cases r)
    case (Inl e)
    then have "outcome (run_requests E ?rs w) = (Some e, w1)"
      using outcome_loop_body [of E data_dir url verbose derivatives_dir osf_data s acc w] b
      by (simp add: outcome_simps)
    then show ?thesis
      using b Inl by (simp add: outcome_run_requests_append bind_def outcome_simps)
  next
    case (Inr acc')
    then have "outcome (run_requests E ?rs w) = (None, w1)"
      using outcome_loop_body [of E data_dir url verbose derivatives_dir osf_data s acc w] b
      by (simp add: outcome_simps)
    then show ?thesis
      using b Inr by (simp add: outcome_run_requests_append bind_def Cons.IH)
  qed
qed

subsection \<open>Evaluation\<close>

lemmas model_defs =
  fetch_hbnssi_def fetch_hbnssi_functional_def fetch_hbnssi_participants_def
  fetch_hbnssi_brain_mask_def create_dirs_def loop_body_def download_def request_def
  call_fetch_files_def call_get_dataset_dir_def call_csv_participants_def call_csv_osf_def
  call_mkdir_def bind_def return_def lift_def index0_def Let_def

lemmas example_defs =
  example_env_def failing_env_def empty_world_def no_lists_def subject_def keys_def
  shown_def posix_def os_path_join_def urls_def targets_def

lemmas path_defs = Path_def joinpath_def as_path_def parse_part_def splitroot_def

lemma format_url:
  "format ''https://osf.io/download/{}/'' k = Inr (''https://osf.io/download/'' @ k @ ''/'')"
  by (simp add: format_def emit_def field_def)

lemma format_raiders:
  "format raiders s =
     Inr (''sub-'' @ s @ ''_task-RAIDERS_space-MNI152NLin2009cAsym_desc-postproc_bold.nii.gz'')"
  by (simp add: format_def raiders_def emit_def field_def)

lemma format_flanker:
  "format flanker s =
     Inr (''sub-'' @ s @ ''_task-FLANKERTASK_space-MNI152NLin2009cAsym_desc-postproc_bold.nii.gz'')"
  by (simp add: format_def flanker_def emit_def field_def)

lemma format_conditions: "format conditions s = Inr (''sub-'' @ s @ ''_labels.csv'')"
  by (simp add: format_def conditions_def emit_def field_def)

lemma format_runs: "format runs s = Inr (''sub-'' @ s @ ''_runs.csv'')"
  by (simp add: format_def runs_def emit_def field_def)

lemmas format_simps = format_url format_raiders format_flanker format_conditions format_runs

subsection \<open>The resume flag\<close>

text \<open>
  The body of \<^verbatim>\<open>_fetch_hbnssi_functional\<close> never reads its parameter
  \<^verbatim>\<open>resume\<close>.
\<close>

lemma resume_ignored:
  "fetch_hbnssi_functional E participants data_dir url False verbose =
   fetch_hbnssi_functional E participants data_dir url True verbose"
  by (simp add: fetch_hbnssi_functional_def)

text \<open>
  C2: for every participant and each of the four artifact kinds, the request goes to the
  file-retrieval collaborator with the caller's resume flag forwarded. The code does not
  do this: called with \<^verbatim>\<open>resume=False\<close> for one participant, none of the four
  calls of \<^verbatim>\<open>_fetch_files\<close> passes the keyword, and the run is the run with
  \<^verbatim>\<open>resume=True\<close>.
\<close>

theorem resume_not_forwarded:
  "map fc_resume (fetch_calls (log (snd (fetch_hbnssi_functional
       (example_env [subject ''A001''] [keys ''A001'' ''k1'' ''k2'' ''k3'' ''k4''])
       [subject ''A001''] ''/data/hbnssi'' None False 1 empty_world))))
     = [None, None, None, None] \<and>
   fetch_hbnssi_functional
       (example_env [subject ''A001''] [keys ''A001'' ''k1'' ''k2'' ''k3'' ''k4''])
       [subject ''A001''] ''/data/hbnssi'' None False 1 empty_world
     = fetch_hbnssi_functional
       (example_env [subject ''A001''] [keys ''A001'' ''k1'' ''k2'' ''k3'' ''k4''])
       [subject ''A001''] ''/data/hbnssi'' None True 1 empty_world"
  by (simp add: model_defs example_defs path_defs format_simps)

subsection \<open>The loop over the participants\<close>

lemma snd_outcome: "snd (outcome x) = snd x"
  by (simp add: outcome_def split: prod.splits sum.splits)

lemma outcome_Some: "outcome x = (Some e, w) \<longleftrightarrow> x = (Inl e, w)"
  by (auto simp: outcome_def split: prod.splits sum.splits)

lemma outcome_None: "outcome x = (None, w) \<longleftrightarrow> (\<exists>v. x = (Inr v, w))"
  by (auto simp: outcome_def split: prod.splits sum.splits)

lemma loop_append:
  "loop E data_dir url verbose derivatives_dir osf_data (xs @ ys) acc w =
     (case loop E data_dir url verbose derivatives_dir osf_data xs acc w of
        (Inl e, w1) \<Rightarrow> (Inl e, w1)
      | (Inr a, w1) \<Rightarrow> loop E data_dir url verbose derivatives_dir osf_data ys a w1)"
proof (induction xs arbitrary: acc w)
  case Nil
  show ?case by (simp add: return_def)
next
  case (Cons x xs)
  show ?case
    by (simp add: bind_def Cons.IH split: prod.splits sum.splits)
qed

lemma loop_log:
  "\<exists>k. log (snd (loop E data_dir url verbose derivatives_dir osf_data xs acc w)) =
        log w @ map FetchFiles (take k (until_error
          (concat (map (subject_requests data_dir url verbose derivatives_dir osf_data) xs))))"
proof -
  let ?rs = "concat (map (subject_requests data_dir url verbose derivatives_dir osf_data) xs)"
  have "snd (loop E data_dir url verbose derivatives_dir osf_data xs acc w) =
        snd (run_requests E ?rs w)"
    using outcome_loop [of E data_dir url verbose derivatives_dir osf_data xs acc w]
    by (metis snd_outcome)
  then show ?thesis
    using run_requests_log [of E ?rs w] by simp
qed

lemma loop_ok:
  assumes "loop E data_dir url verbose derivatives_dir osf_data xs acc w = (Inr a, w1)"
  shows "\<exists>cs. concat (map (subject_requests data_dir url verbose derivatives_dir osf_data) xs) =
               map Inr cs \<and> log w1 = log w @ map FetchFiles cs"
proof -
  let ?rs = "concat (map (subject_requests data_dir url verbose derivatives_dir osf_data) xs)"
  have "outcome (run_requests E ?rs w) = (None, w1)"
    using outcome_loop [of E data_dir url verbose derivatives_dir osf_data xs acc w] assms
    by (simp add: outcome_simps)
  then obtain ps where "run_requests E ?rs w = (Inr ps, w1)"
    by (auto simp: outcome_None)
  from run_requests_ok [OF this] show ?thesis by blast
qed

lemma loop_failure:
  assumes "outcome (run_requests E rs1 w) = (Some e, w1)"
    and "concat (map (subject_requests data_dir url verbose derivatives_dir osf_data) xs) =
         rs1 @ rs2"
  shows "outcome (loop E data_dir url verbose derivatives_dir osf_data xs acc w) = (Some e, w1)"
  using assms outcome_loop [of E data_dir url verbose derivatives_dir osf_data xs acc w]
  by (simp add: outcome_run_requests_append)

text \<open>
  C4: the requests go out subject by subject in registry order, and a failure ends the
  whole fetch. Whatever the collaborator does, the calls that the loop adds to the log
  are an initial part of the subjects' requests, four for each subject, in the order of
  the list. When the loop over the subjects \<open>xs\<close> raises, the loop over \<open>xs\<close>
  followed by any further subjects \<open>ys\<close> raises the same error in the same world, so
  nothing is requested for \<open>ys\<close>; when it returns, all four requests of every subject
  of \<open>xs\<close> are in the log before the loop goes on with \<open>ys\<close>. The same holds
  request by request: when issuing an initial part \<open>rs1\<close> of the requests fails, the
  loop ends with that error in the world of the failure.
\<close>

theorem subjects_in_order_fail_fast:
  "(\<exists>k. log (snd (loop E data_dir url verbose derivatives_dir osf_data xs acc w)) =
         log w @ map FetchFiles (take k (until_error
           (concat (map (subject_requests data_dir url verbose derivatives_dir osf_data) xs))))) \<and>
   (case loop E data_dir url verbose derivatives_dir osf_data xs acc w of
      (Inl e, w1) \<Rightarrow>
        loop E data_dir url verbose derivatives_dir osf_data (xs @ ys) acc w = (Inl e, w1)
    | (Inr a, w1) \<Rightarrow>
        loop E data_dir url verbose derivatives_dir osf_data (xs @ ys) acc w =
          loop E data_dir url verbose derivatives_dir osf_data ys a w1 \<and>
        (\<exists>cs. concat (map (subject_requests data_dir url verbose derivatives_dir osf_data) xs) =
                map Inr cs \<and> log w1 = log w @ map FetchFiles cs)) \<and>
   (outcome (run_requests E rs1 w) = (Some e, w') \<and>
    concat (map (subject_requests data_dir url verbose derivatives_dir osf_data) xs) = rs1 @ rs2
    \<longrightarrow> outcome (loop E data_dir url verbose derivatives_dir osf_data xs acc w) = (Some e, w'))"
proof (intro conjI)
  show "\<exists>k. log (snd (loop E data_dir url verbose derivatives_dir osf_data xs acc w)) =
         log w @ map FetchFiles (take k (until_error
           (concat (map (subject_requests data_dir url verbose derivatives_dir osf_data) xs))))"
    by (rule loop_log)
next
  obtain r w1 where l: "loop E data_dir url verbose derivatives_dir osf_data xs acc w = (r, w1)"
    by fastforce
  show "case loop E data_dir url verbose derivatives_dir osf_data xs acc w of
      (Inl e, w1) \<Rightarrow>
        loop E data_dir url verbose derivatives_dir osf_data (xs @ ys) acc w = (Inl e, w1)
    | (Inr a, w1) \<Rightarrow>
        loop E data_dir url verbose derivatives_dir osf_data (xs @ ys) acc w =
          loop E data_dir url verbose derivatives_dir osf_data ys a w1 \<and>
        (\<exists>cs. concat (map (subject_requests data_dir url verbose derivatives_dir osf_data) xs) =
                map Inr cs \<and> log w1 = log w @ map FetchFiles cs)"
  proof (cases r)
    case (Inl e)
    with l show ?thesis by (simp add: loop_append)
  next
    case (Inr a)
    with l loop_ok [of E data_dir url verbose derivatives_dir osf_data xs acc w a w1]
    show ?thesis by (simp add: loop_append)
  qed
next
  show "outcome (run_requests E rs1 w) = (Some e, w') \<and>
    concat (map (subject_requests data_dir url verbose derivatives_dir osf_data) xs) = rs1 @ rs2
    \<longrightarrow> outcome (loop E data_dir url verbose derivatives_dir osf_data xs acc w) = (Some e, w')"
    using loop_failure by blast
qed

theorem subjects_in_order_fail_fast_witness:
  "map urls (fetch_calls (log (snd (loop
      (failing_env two_subjects two_rows ''https://osf.io/download/k2/'')
      ''/d'' ''https://osf.io/download/{}/'' 1 derivatives two_rows [''A001'', ''A002'']
      no_lists empty_world)))) =
     [[''https://osf.io/download/k1/''], [''https://osf.io/download/k2/'']] \<and>
   fst (loop (failing_env two_subjects two_rows ''https://osf.io/download/k2/'')
      ''/d'' ''https://osf.io/download/{}/'' 1 derivatives two_rows [''A001'', ''A002'']
      no_lists empty_world) = Inl (Raised ''URLError'')"
  using subjects_in_order_fail_fast
    [of "failing_env two_subjects two_rows ''https://osf.io/download/k2/''"
        "''/d''" "''https://osf.io/download/{}/''" 1 derivatives two_rows "[''A001'']"
        no_lists empty_world "[''A002'']"
        "take 2 (subject_requests ''/d'' ''https://osf.io/download/{}/'' 1 derivatives two_rows ''A001'')"
        "Raised ''URLError''"
        "snd (loop (failing_env two_subjects two_rows ''https://osf.io/download/k2/'')
      ''/d'' ''https://osf.io/download/{}/'' 1 derivatives two_rows [''A001'']
      no_lists empty_world)"
        "drop 2 (subject_requests ''/d'' ''https://osf.io/download/{}/'' 1 derivatives two_rows ''A001'')"]
  by (simp add: model_defs example_defs path_defs format_simps two_rows_def two_subjects_def
      derivatives_def)

subsection \<open>Subjects without a row, and rows with an empty key\<close>

lemma loop_body_no_row:
  assumes "s \<notin> col_sid ` set osf_data"
  shows "loop_body E data_dir url verbose derivatives_dir osf_data s acc w = (Inl IndexError, w)"
proof -
  have "filter (\<lambda>r. col_sid r = s) osf_data = []"
    using assms by (auto simp: filter_empty_conv)
  then show ?thesis
    by (simp add: loop_body_def download_def request_def index0_def bind_def lift_def)
qed

text \<open>
  C1, as the code has it: when a subject id of the registry has no row in the lookup
  table, the loop raises at that subject, before any request for it: the world it leaves
  is the world left by the subjects before it, so nothing is requested for that subject
  or for any subject after it. The error is the IndexError of indexing the empty
  selection with \<^verbatim>\<open>[0]\<close> (or the error of an earlier subject); there is no
  substitution.
\<close>

theorem missing_row_fails_before_any_request:
  assumes "s \<notin> col_sid ` set osf_data"
  shows "loop E data_dir url verbose derivatives_dir osf_data (pre @ s # post) acc w =
           (case loop E data_dir url verbose derivatives_dir osf_data pre acc w of
              (Inl e, w1) \<Rightarrow> (Inl e, w1)
            | (Inr a, w1) \<Rightarrow> (Inl IndexError, w1))"
  using assms
  by (simp add: loop_append [of _ _ _ _ _ _ pre] loop_body_no_row bind_def
      split: prod.splits sum.splits)

theorem missing_row_fails_before_any_request_witness:
  "''A003'' \<notin> col_sid ` set two_rows \<and>
   loop (example_env two_subjects two_rows) ''/d'' ''https://osf.io/download/{}/'' 1
     derivatives two_rows ([''A001''] @ ''A003'' # [''A002'']) no_lists empty_world =
   (Inl IndexError,
    snd (loop (example_env two_subjects two_rows) ''/d'' ''https://osf.io/download/{}/'' 1
     derivatives two_rows [''A001''] no_lists empty_world)) \<and>
   map urls (fetch_calls (log (snd (loop (example_env two_subjects two_rows) ''/d''
     ''https://osf.io/download/{}/'' 1 derivatives two_rows
     ([''A001''] @ ''A003'' # [''A002'']) no_lists empty_world)))) =
   [[''https://osf.io/download/k1/''], [''https://osf.io/download/k2/''],
    [''https://osf.io/download/k3/''], [''https://osf.io/download/k4/'']]"
proof -
  have h: "''A003'' \<notin> col_sid ` set two_rows"
    by (simp add: two_rows_def keys_def)
  show ?thesis
    using h missing_row_fails_before_any_request
      [OF h, of "example_env two_subjects two_rows" "''/d''" "''https://osf.io/download/{}/''"
         1 derivatives "[''A001'']" "[''A002'']" no_lists empty_world]
    by (simp add: model_defs example_defs path_defs format_simps two_rows_def two_subjects_def
        derivatives_def)
qed

text \<open>
  C1 as stated also covers a row whose key field is empty. The code has no check for
  that: the empty key is substituted into the address and the file is requested, and the
  fetch returns.
\<close>

theorem empty_key_is_requested:
  "fst (fetch_hbnssi_functional
          (example_env [subject ''A001''] [keys ''A001'' [] ''k2'' ''k3'' ''k4''])
          [subject ''A001''] ''/d'' None True 1 empty_world) =
     Inr \<lparr>anchor = ''/'', names = [''d'', ''derivatives'']\<rparr> \<and>
   map urls (fetch_calls (log (snd (fetch_hbnssi_functional
          (example_env [subject ''A001''] [keys ''A001'' [] ''k2'' ''k3'' ''k4''])
          [subject ''A001''] ''/d'' None True 1 empty_world)))) =
     [[''https://osf.io/download//''], [''https://osf.io/download/k2/''],
      [''https://osf.io/download/k3/''], [''https://osf.io/download/k4/'']]"
  by (simp add: model_defs example_defs path_defs format_simps)

subsection \<open>Rows with the same subject id\<close>

lemma index0_first_match:
  "find P rows = Some r \<Longrightarrow> index0 (map column (filter P rows)) = Inr (column r)"
  by (induction rows) (auto simp: index0_def split: if_splits)

lemma request_first_match:
  assumes "find (\<lambda>r. col_sid r = s) osf_data = Some r"
  shows "request data_dir url verbose derivatives_dir (filter (\<lambda>r. col_sid r = s) osf_data)
           column template s =
         request data_dir url verbose derivatives_dir [r] column template s"
  using index0_first_match [OF assms, of column]
  by (simp add: request_def index0_def)

text \<open>
  C10: when the table has more than one row for a subject id, the first one in table
  order gives all four keys: the loop body does what it does on the table that holds
  that row alone, so no later row is consulted and no error comes from the duplicates.
\<close>

theorem first_matching_row_is_used:
  assumes "find (\<lambda>r. col_sid r = s) osf_data = Some r"
  shows "loop_body E data_dir url verbose derivatives_dir osf_data s acc w =
         loop_body E data_dir url verbose derivatives_dir [r] s acc w \<and>
         subject_requests data_dir url verbose derivatives_dir osf_data s =
           [request data_dir url verbose derivatives_dir [r] col_raiders raiders s,
            request data_dir url verbose derivatives_dir [r] col_flanker flanker s,
            request data_dir url verbose derivatives_dir [r] col_condition conditions s,
            request data_dir url verbose derivatives_dir [r] col_run runs s]"
proof -
  have c: "col_sid r = s"
    using assms by (induction osf_data) (auto split: if_splits)
  have d: "download E data_dir url verbose derivatives_dir
             (filter (\<lambda>r. col_sid r = s) osf_data) column template s =
           download E data_dir url verbose derivatives_dir [r] column template s"
    for column template
    by (simp add: download_def request_first_match [OF assms])
  show ?thesis
    by (simp add: loop_body_def subject_requests_def Let_def c d
        request_first_match [OF assms])
qed

theorem first_matching_row_is_used_witness:
  "find (\<lambda>r. col_sid r = ''A001'')
     [keys ''A002'' ''m1'' ''m2'' ''m3'' ''m4'', keys ''A001'' ''k1'' ''k2'' ''k3'' ''k4'',
      keys ''A001'' ''z1'' ''z2'' ''z3'' ''z4''] = Some (keys ''A001'' ''k1'' ''k2'' ''k3'' ''k4'') \<and>
   map urls (fetch_calls (log (snd (loop_body (example_env [subject ''A001''] []) ''/d''
     ''https://osf.io/download/{}/'' 1 derivatives
     [keys ''A002'' ''m1'' ''m2'' ''m3'' ''m4'', keys ''A001'' ''k1'' ''k2'' ''k3'' ''k4'',
      keys ''A001'' ''z1'' ''z2'' ''z3'' ''z4''] ''A001'' no_lists empty_world)))) =
   [[''https://osf.io/download/k1/''], [''https://osf.io/download/k2/''],
    [''https://osf.io/download/k3/''], [''https://osf.io/download/k4/'']]"
proof -
  have h: "find (\<lambda>r. col_sid r = ''A001'')
     [keys ''A002'' ''m1'' ''m2'' ''m3'' ''m4'', keys ''A001'' ''k1'' ''k2'' ''k3'' ''k4'',
      keys ''A001'' ''z1'' ''z2'' ''z3'' ''z4''] = Some (keys ''A001'' ''k1'' ''k2'' ''k3'' ''k4'')"
    by (simp add: keys_def)
  have "loop_body (example_env [subject ''A001''] []) ''/d''
     ''https://osf.io/download/{}/'' 1 derivatives
     [keys ''A002'' ''m1'' ''m2'' ''m3'' ''m4'', keys ''A001'' ''k1'' ''k2'' ''k3'' ''k4'',
      keys ''A001'' ''z1'' ''z2'' ''z3'' ''z4''] ''A001'' no_lists empty_world =
     loop_body (example_env [subject ''A001''] []) ''/d''
     ''https://osf.io/download/{}/'' 1 derivatives
     [keys ''A001'' ''k1'' ''k2'' ''k3'' ''k4''] ''A001'' no_lists empty_world"
    using first_matching_row_is_used [OF h] by blast
  then show ?thesis
    using h
    by (simp add: model_defs example_defs path_defs format_simps derivatives_def)
qed

subsection \<open>Local paths\<close>

lemma fetch_calls_append: "fetch_calls (xs @ ys) = fetch_calls xs @ fetch_calls ys"
  by (induction xs rule: fetch_calls.induct) simp_all

lemma fetch_calls_map: "fetch_calls (map FetchFiles cs) = cs"
  by (induction cs) simp_all

lemma request_targets:
  assumes "request data_dir url verbose derivatives_dir this_osf_id column template s = Inr c"
    and "format template s = Inr name"
  shows "targets c = [PathObj (Path (PathObj derivatives_dir) (Str name))]"
  using assms
  by (auto simp: request_def targets_def Let_def split: sum.splits)

lemma until_error_related:
  assumes "list_all2 (\<lambda>r t. \<forall>c. r = Inr c \<longrightarrow> f c = t) rs ts"
  shows "\<exists>n. map f (until_error rs) = take n ts"
  using assms
proof (induction rs ts rule: list_all2_induct)
  case Nil
  show ?case by simp
next
  case (Cons r rs t ts)
  show ?case
  proof (cases r)
    case (Inl e)
    have "map f (until_error (r # rs)) = take 0 (t # ts)" using Inl by simp
    then show ?thesis by blast
  next
    case (Inr c)
    from Cons.IH obtain n where "map f (until_error rs) = take n ts" by blast
    then have "map f (until_error (r # rs)) = take (Suc n) (t # ts)"
      using Inr Cons.hyps by simp
    then show ?thesis by blast
  qed
qed

lemma all_Inr_related:
  assumes "list_all2 (\<lambda>r t. \<forall>c. r = Inr c \<longrightarrow> f c = t) (map Inr cs) ts"
  shows "map f cs = ts"
  using assms
  by (induction cs arbitrary: ts) (auto simp: list_all2_Cons1)

lemma request_file_name:
  "request data_dir url verbose derivatives_dir this_osf_id column raiders s = Inr c \<Longrightarrow>
     targets c = [PathObj (Path (PathObj derivatives_dir) (Str (file_name Raiders s)))]"
  "request data_dir url verbose derivatives_dir this_osf_id column flanker s = Inr c \<Longrightarrow>
     targets c = [PathObj (Path (PathObj derivatives_dir) (Str (file_name Flanker s)))]"
  "request data_dir url verbose derivatives_dir this_osf_id column conditions s = Inr c \<Longrightarrow>
     targets c = [PathObj (Path (PathObj derivatives_dir) (Str (file_name Condition s)))]"
  "request data_dir url verbose derivatives_dir this_osf_id column runs s = Inr c \<Longrightarrow>
     targets c = [PathObj (Path (PathObj derivatives_dir) (Str (file_name Run s)))]"
  by (erule request_targets, simp add: file_name_def format_simps)+

lemma subject_requests_derive:
  "list_all2 (\<lambda>r t. \<forall>c. r = Inr c \<longrightarrow> targets c = t)
     (subject_requests data_dir url verbose (Path (Str data_dir) (Str ''derivatives''))
        osf_data s)
     (map (\<lambda>k. [PathObj (derive data_dir s k)]) [Raiders, Flanker, Condition, Run])"
  by (simp add: subject_requests_def derive_def Let_def request_file_name)

lemma all_requests_derive:
  "list_all2 (\<lambda>r t. \<forall>c. r = Inr c \<longrightarrow> targets c = t)
     (concat (map (subject_requests data_dir url verbose
        (Path (Str data_dir) (Str ''derivatives'')) osf_data) ss))
     (concat (map (\<lambda>s. map (\<lambda>k. [PathObj (derive data_dir s k)])
        [Raiders, Flanker, Condition, Run]) ss))"
proof (induction ss)
  case Nil
  show ?case by simp
next
  case (Cons s ss)
  show ?case
    using list_all2_appendI [OF subject_requests_derive [of data_dir url verbose osf_data s] Cons.IH]
    by simp
qed


lemma functional_unfold:
  "fetch_hbnssi_functional E ps data_dir url resume verbose w =
     (case csv_osf E w (os_path_join (package_directory E) ''hbnssi.csv'') of
        Inl e \<Rightarrow>
          (Inl e, w\<lparr>log := log w @ [CsvToArray (os_path_join (package_directory E) ''hbnssi.csv'')]\<rparr>)
      | Inr osf_data \<Rightarrow>
          (case loop E data_dir
                  (case url of None \<Rightarrow> ''https://osf.io/download/{}/'' | Some u \<Rightarrow> u) verbose
                  (Path (Str data_dir) (Str ''derivatives'')) osf_data (map sid ps)
                  \<lparr>align = [], decode = [], labels = [], sessions = []\<rparr>
                  (w\<lparr>log := log w @
                     [CsvToArray (os_path_join (package_directory E) ''hbnssi.csv'')]\<rparr>) of
             (Inl e, w1) \<Rightarrow> (Inl e, w1)
           | (Inr a, w1) \<Rightarrow> (Inr (Path (Str data_dir) (Str ''derivatives'')), w1)))"
  by (simp add: fetch_hbnssi_functional_def call_csv_osf_def bind_def return_def Let_def
      split: sum.splits prod.splits)

lemma functional_targets:
  "(\<exists>n. map targets (fetch_calls (log (snd
          (fetch_hbnssi_functional E ps data_dir url resume verbose w)))) =
        map targets (fetch_calls (log w)) @
        take n (concat (map (\<lambda>s. map (\<lambda>k. [PathObj (derive data_dir s k)])
          [Raiders, Flanker, Condition, Run]) (map sid ps)))) \<and>
   (case fetch_hbnssi_functional E ps data_dir url resume verbose w of
      (Inl e, w1) \<Rightarrow> True
    | (Inr d, w1) \<Rightarrow>
        map targets (fetch_calls (log w1)) =
        map targets (fetch_calls (log w)) @
        concat (map (\<lambda>s. map (\<lambda>k. [PathObj (derive data_dir s k)])
          [Raiders, Flanker, Condition, Run]) (map sid ps)))"
proof -
  let ?path = "os_path_join (package_directory E) ''hbnssi.csv''"
  let ?w0 = "w\<lparr>log := log w @ [CsvToArray ?path]\<rparr>"
  let ?u = "case url of None \<Rightarrow> ''https://osf.io/download/{}/'' | Some u \<Rightarrow> u"
  let ?D = "Path (Str data_dir) (Str ''derivatives'')"
  let ?acc = "\<lparr>align = [], decode = [], labels = [], sessions = []\<rparr>"
  let ?ts = "concat (map (\<lambda>s. map (\<lambda>k. [PathObj (derive data_dir s k)])
          [Raiders, Flanker, Condition, Run]) (map sid ps))"
  have w0: "fetch_calls (log ?w0) = fetch_calls (log w)"
    by (simp add: fetch_calls_append)
  show ?thesis
  proof (cases "csv_osf E w ?path")
    case (Inl e)
    then have "fetch_hbnssi_functional E ps data_dir url resume verbose w = (Inl e, ?w0)"
      by (simp add: functional_unfold)
    moreover have "map targets (fetch_calls (log ?w0)) =
        map targets (fetch_calls (log w)) @ take 0 ?ts"
      by (simp add: fetch_calls_append)
    ultimately show ?thesis
      by (metis (no_types, lifting) case_prod_conv old.sum.simps(5) snd_conv)
  next
    case (Inr osf_data)
    let ?rs = "concat (map (subject_requests data_dir ?u verbose ?D osf_data) (map sid ps))"
    obtain r w1 where l: "loop E data_dir ?u verbose ?D osf_data (map sid ps)
        \<lparr>align = [], decode = [], labels = [], sessions = []\<rparr> ?w0 = (r, w1)"
      by fastforce
    have rel: "list_all2 (\<lambda>r t. \<forall>c. r = Inr c \<longrightarrow> targets c = t) ?rs ?ts"
      by (rule all_requests_derive)
    from loop_log [of E data_dir ?u verbose ?D osf_data "map sid ps" ?acc ?w0] l
    obtain k where k: "log w1 = log ?w0 @ map FetchFiles (take k (until_error ?rs))"
      by fastforce
    from until_error_related [OF rel] obtain n where
      n: "map targets (until_error ?rs) = take n ?ts" by blast
    have "fetch_calls (log w1) = fetch_calls (log w) @ take k (until_error ?rs)"
      unfolding k fetch_calls_append fetch_calls_map w0 ..
    then have "map targets (fetch_calls (log w1)) =
        map targets (fetch_calls (log w)) @ take k (map targets (until_error ?rs))"
      by (simp only: map_append take_map)
    then have calls: "map targets (fetch_calls (log w1)) =
        map targets (fetch_calls (log w)) @ take (min k n) ?ts"
      by (simp only: n take_take)
    then have ex: "\<exists>n. map targets (fetch_calls (log w1)) =
        map targets (fetch_calls (log w)) @ take n ?ts"
      by (rule exI)
    show ?thesis
    proof (cases r)
      case (Inl e)
      then have f: "fetch_hbnssi_functional E ps data_dir url resume verbose w = (Inl e, w1)"
        using Inr l by (simp add: functional_unfold)
      show ?thesis unfolding f using ex by simp
    next
      case (Inr a)
      then have f: "fetch_hbnssi_functional E ps data_dir url resume verbose w = (Inr ?D, w1)"
        using \<open>csv_osf E w ?path = Inr osf_data\<close> l by (simp add: functional_unfold)
      from loop_ok [of E data_dir ?u verbose ?D osf_data "map sid ps" ?acc ?w0 a w1] l Inr
      obtain cs where cs: "?rs = map Inr cs" "log w1 = log ?w0 @ map FetchFiles cs"
        by blast
      have "map targets cs = ?ts"
        by (rule all_Inr_related [OF rel [unfolded cs(1)]])
      then have "map targets (fetch_calls (log w1)) = map targets (fetch_calls (log w)) @ ?ts"
        using cs(2) w0 by (simp add: fetch_calls_append fetch_calls_map)
      then show ?thesis unfolding f using ex by simp
    qed
  qed
qed

subsection \<open>The order within a subject\<close>

lemma loop_body_log:
  "\<exists>k. log (snd (loop_body E data_dir url verbose derivatives_dir osf_data s acc w)) =
        log w @ map FetchFiles (take k (until_error
          (subject_requests data_dir url verbose derivatives_dir osf_data s)))"
proof -
  have "snd (loop_body E data_dir url verbose derivatives_dir osf_data s acc w) =
        snd (run_requests E (subject_requests data_dir url verbose derivatives_dir osf_data s) w)"
    using outcome_loop_body [of E data_dir url verbose derivatives_dir osf_data s acc w]
    by (metis snd_outcome)
  then show ?thesis
    using run_requests_log
      [of E "subject_requests data_dir url verbose derivatives_dir osf_data s" w]
    by simp
qed

lemma loop_body_ok:
  assumes "loop_body E data_dir url verbose derivatives_dir osf_data s acc w = (Inr a, w1)"
  shows "\<exists>cs. subject_requests data_dir url verbose derivatives_dir osf_data s = map Inr cs \<and>
          log w1 = log w @ map FetchFiles cs"
proof -
  let ?rs = "subject_requests data_dir url verbose derivatives_dir osf_data s"
  have "outcome (run_requests E ?rs w) = (None, w1)"
    using outcome_loop_body [of E data_dir url verbose derivatives_dir osf_data s acc w] assms
    by (simp add: outcome_simps)
  then obtain ps where "run_requests E ?rs w = (Inr ps, w1)"
    by (auto simp: outcome_None)
  from run_requests_ok [OF this] show ?thesis by blast
qed

text \<open>
  C9: within each subject's iteration the four retrievals go out in one fixed order:
  the raiders scan, the flanker scan, the condition labels, the run index. For every
  subject, what the loop body adds to the log is an initial part of its four requests in
  that order, and all four, each asking for the file of its kind, when the body returns.
\<close>

theorem artifacts_in_fixed_order:
  "(\<exists>k. log (snd (loop_body E data_dir url verbose derivatives_dir osf_data s acc w)) =
        log w @ map FetchFiles (take k (until_error
          [request data_dir url verbose derivatives_dir
             (filter (\<lambda>r. col_sid r = s) osf_data) col_raiders raiders s,
           request data_dir url verbose derivatives_dir
             (filter (\<lambda>r. col_sid r = s) osf_data) col_flanker flanker s,
           request data_dir url verbose derivatives_dir
             (filter (\<lambda>r. col_sid r = s) osf_data) col_condition conditions s,
           request data_dir url verbose derivatives_dir
             (filter (\<lambda>r. col_sid r = s) osf_data) col_run runs s]))) \<and>
   (case loop_body E data_dir url verbose derivatives_dir osf_data s acc w of
      (Inl e, w1) \<Rightarrow> True
    | (Inr a, w1) \<Rightarrow>
        (\<exists>c1 c2 c3 c4.
           request data_dir url verbose derivatives_dir
             (filter (\<lambda>r. col_sid r = s) osf_data) col_raiders raiders s = Inr c1 \<and>
           request data_dir url verbose derivatives_dir
             (filter (\<lambda>r. col_sid r = s) osf_data) col_flanker flanker s = Inr c2 \<and>
           request data_dir url verbose derivatives_dir
             (filter (\<lambda>r. col_sid r = s) osf_data) col_condition conditions s = Inr c3 \<and>
           request data_dir url verbose derivatives_dir
             (filter (\<lambda>r. col_sid r = s) osf_data) col_run runs s = Inr c4 \<and>
           log w1 = log w @ [FetchFiles c1, FetchFiles c2, FetchFiles c3, FetchFiles c4] \<and>
           map targets [c1, c2, c3, c4] =
             map (\<lambda>k. [PathObj (Path (PathObj derivatives_dir) (Str (file_name k s)))])
               [Raiders, Flanker, Condition, Run]))"
proof (rule conjI)
  show "\<exists>k. log (snd (loop_body E data_dir url verbose derivatives_dir osf_data s acc w)) =
        log w @ map FetchFiles (take k (until_error
          [request data_dir url verbose derivatives_dir
             (filter (\<lambda>r. col_sid r = s) osf_data) col_raiders raiders s,
           request data_dir url verbose derivatives_dir
             (filter (\<lambda>r. col_sid r = s) osf_data) col_flanker flanker s,
           request data_dir url verbose derivatives_dir
             (filter (\<lambda>r. col_sid r = s) osf_data) col_condition conditions s,
           request data_dir url verbose derivatives_dir
             (filter (\<lambda>r. col_sid r = s) osf_data) col_run runs s]))"
    using loop_body_log [of E data_dir url verbose derivatives_dir osf_data s acc w]
    by (simp add: subject_requests_def Let_def)
next
  obtain r w1 where b: "loop_body E data_dir url verbose derivatives_dir osf_data s acc w = (r, w1)"
    by fastforce
  show "case loop_body E data_dir url verbose derivatives_dir osf_data s acc w of
      (Inl e, w1) \<Rightarrow> True
    | (Inr a, w1) \<Rightarrow>
        (\<exists>c1 c2 c3 c4.
           request data_dir url verbose derivatives_dir
             (filter (\<lambda>r. col_sid r = s) osf_data) col_raiders raiders s = Inr c1 \<and>
           request data_dir url verbose derivatives_dir
             (filter (\<lambda>r. col_sid r = s) osf_data) col_flanker flanker s = Inr c2 \<and>
           request data_dir url verbose derivatives_dir
             (filter (\<lambda>r. col_sid r = s) osf_data) col_condition conditions s = Inr c3 \<and>
           request data_dir url verbose derivatives_dir
             (filter (\<lambda>r. col_sid r = s) osf_data) col_run runs s = Inr c4 \<and>
           log w1 = log w @ [FetchFiles c1, FetchFiles c2, FetchFiles c3, FetchFiles c4] \<and>
           map targets [c1, c2, c3, c4] =
             map (\<lambda>k. [PathObj (Path (PathObj derivatives_dir) (Str (file_name k s)))])
               [Raiders, Flanker, Condition, Run])"
  proof (cases r)
    case (Inl e)
    with b show ?thesis by simp
  next
    case (Inr a)
    from loop_body_ok [of E data_dir url verbose derivatives_dir osf_data s acc w a w1] b Inr
    obtain cs where cs:
      "subject_requests data_dir url verbose derivatives_dir osf_data s = map Inr cs"
      "log w1 = log w @ map FetchFiles cs"
      by blast
    from cs(1) obtain c1 c2 c3 c4 where c: "cs = [c1, c2, c3, c4]"
      by (auto simp: subject_requests_def Let_def map_eq_Cons_conv)
    have rq:
      "request data_dir url verbose derivatives_dir
         (filter (\<lambda>r. col_sid r = s) osf_data) col_raiders raiders s = Inr c1"
      "request data_dir url verbose derivatives_dir
         (filter (\<lambda>r. col_sid r = s) osf_data) col_flanker flanker s = Inr c2"
      "request data_dir url verbose derivatives_dir
         (filter (\<lambda>r. col_sid r = s) osf_data) col_condition conditions s = Inr c3"
      "request data_dir url verbose derivatives_dir
         (filter (\<lambda>r. col_sid r = s) osf_data) col_run runs s = Inr c4"
      using cs(1) c by (simp_all add: subject_requests_def Let_def)
    have "map targets [c1, c2, c3, c4] =
        map (\<lambda>k. [PathObj (Path (PathObj derivatives_dir) (Str (file_name k s)))])
          [Raiders, Flanker, Condition, Run]"
      using rq by (simp add: request_file_name)
    then show ?thesis
      using b Inr rq cs(2) c by simp
  qed
qed

theorem artifacts_in_fixed_order_witness:
  "map urls (fetch_calls (log (snd (loop_body (example_env two_subjects two_rows) ''/d''
      ''https://osf.io/download/{}/'' 1 derivatives two_rows ''A002'' no_lists empty_world)))) =
     [[''https://osf.io/download/m1/''], [''https://osf.io/download/m2/''],
      [''https://osf.io/download/m3/''], [''https://osf.io/download/m4/'']] \<and>
   map targets (fetch_calls (log (snd (loop_body (example_env two_subjects two_rows) ''/d''
      ''https://osf.io/download/{}/'' 1 derivatives two_rows ''A002'' no_lists empty_world)))) =
     map (\<lambda>k. [PathObj (Path (PathObj derivatives) (Str (file_name k ''A002'')))])
       [Raiders, Flanker, Condition, Run]"
  using artifacts_in_fixed_order
    [of "example_env two_subjects two_rows" "''/d''" "''https://osf.io/download/{}/''" 1
        derivatives two_rows "''A002''" no_lists empty_world]
  by (simp add: model_defs example_defs path_defs format_simps two_rows_def two_subjects_def
      derivatives_def file_name_def)

subsection \<open>Distinct paths\<close>


lemma split_sep_no_sep: "CHR ''/'' \<notin> set s \<Longrightarrow> split_sep s = [s]"
  by (induction s) auto

lemma file_name_no_sep: "CHR ''/'' \<notin> set s \<Longrightarrow> CHR ''/'' \<notin> set (file_name k s)"
  by (cases k) (simp_all add: file_name_def)

lemma Path_file_name:
  assumes "CHR ''/'' \<notin> set s"
  shows "Path (PathObj D) (Str (file_name k s)) =
           \<lparr>anchor = anchor D, names = names D @ [file_name k s]\<rparr>"
proof -
  obtain r where "file_name k s = CHR ''s'' # r"
    by (simp add: file_name_def)
  then have "splitroot (file_name k s) = ([], file_name k s)"
    by (simp add: splitroot_def)
  moreover have "file_name k s \<noteq> []" "file_name k s \<noteq> ''.''"
    by (simp_all add: file_name_def)
  ultimately have "parse_part (file_name k s) = \<lparr>anchor = [], names = [file_name k s]\<rparr>"
    using split_sep_no_sep [OF file_name_no_sep [OF assms, of k]]
    by (simp add: parse_part_def)
  then show ?thesis
    by (simp add: Path_def as_path_def joinpath_def)
qed







subsection \<open>The steps of \<^verbatim>\<open>fetch_hbnssi\<close>\<close>

lemma bind_Inr:
  "bind m f w = (Inr y, w') \<longleftrightarrow> (\<exists>x w1. m w = (Inr x, w1) \<and> f x w1 = (Inr y, w'))"
  by (auto simp: bind_def split: prod.splits sum.splits)

lemma fetch_hbnssi_stages:
  assumes "fetch_hbnssi E data_dir resume verbose w = (Inr b, w')"
  shows "\<exists>d w1 ps w2 m w3 D w4 out cache.
           call_get_dataset_dir E ''hbnssi'' data_dir 1 w = (Inr d, w1) \<and>
           fetch_hbnssi_participants E d None verbose w1 = (Inr ps, w2) \<and>
           fetch_hbnssi_brain_mask E d None verbose w2 = (Inr m, w3) \<and>
           fetch_hbnssi_functional E ps d None resume verbose w3 = (Inr D, w4) \<and>
           create_dirs d w4 = (Inr (out, cache), w') \<and>
           b = \<lparr>subjects = map sid ps, mask_file = m, task_dir = D, out_dir = out,
                 mask_cache = cache\<rparr>"
  using assms
  by (auto simp: fetch_hbnssi_def bind_Inr return_def Let_def)

lemma get_dataset_dir_log:
  "call_get_dataset_dir E name data_dir verbose w = (r, w1) \<Longrightarrow>
     log w1 = log w @ [GetDatasetDir name data_dir verbose]"
  by (auto simp: call_get_dataset_dir_def split: prod.splits)

lemma call_fetch_files_log:
  "call_fetch_files E c w = (r, w1) \<Longrightarrow> log w1 = log w @ [FetchFiles c]"
  by (auto simp: call_fetch_files_def split: prod.splits)

lemma participants_ok:
  assumes "fetch_hbnssi_participants E d None verbose w = (Inr ps, w1)"
  shows "\<exists>path w0. csv_participants E w0 path = Inr ps \<and>
           log w1 = log w @
             [FetchFiles \<lparr>fc_data_dir = d,
                fc_files = [(Str ''participants.csv'', ''https://osf.io/wtvh3/download'',
                             Str ''participants.csv'')],
                fc_resume = None, fc_verbose = verbose\<rparr>,
              CsvToArray path]"
  using assms
  by (auto simp: fetch_hbnssi_participants_def bind_Inr lift_def call_csv_participants_def
      dest!: call_fetch_files_log)

lemma brain_mask_ok:
  assumes "fetch_hbnssi_brain_mask E d None verbose w = (Inr m, w1)"
  shows "log w1 = log w @
             [FetchFiles \<lparr>fc_data_dir = d,
                fc_files = [(Str target_fname, ''https://osf.io/kp6m9/download'',
                             Str target_fname)],
                fc_resume = None, fc_verbose = verbose\<rparr>]"
  using assms
  by (auto simp: fetch_hbnssi_brain_mask_def bind_Inr lift_def dest!: call_fetch_files_log)

lemma functional_ok:
  assumes "fetch_hbnssi_functional E ps d None resume verbose w = (Inr D, w1)"
  shows "D = Path (Str d) (Str ''derivatives'') \<and>
         (\<exists>osf_data cs.
            concat (map (subject_requests d ''https://osf.io/download/{}/'' verbose
              (Path (Str d) (Str ''derivatives'')) osf_data) (map sid ps)) = map Inr cs \<and>
            log w1 = log w @
              CsvToArray (os_path_join (package_directory E) ''hbnssi.csv'') #
              map FetchFiles cs)"
proof -
  let ?path = "os_path_join (package_directory E) ''hbnssi.csv''"
  let ?w0 = "w\<lparr>log := log w @ [CsvToArray ?path]\<rparr>"
  let ?acc = "\<lparr>align = [], decode = [], labels = [], sessions = []\<rparr>"
  let ?D = "Path (Str d) (Str ''derivatives'')"
  obtain osf_data where c: "csv_osf E w ?path = Inr osf_data"
    using assms by (cases "csv_osf E w ?path") (simp_all add: functional_unfold)
  obtain r w2 where
    l: "loop E d ''https://osf.io/download/{}/'' verbose ?D osf_data (map sid ps) ?acc ?w0 =
          (r, w2)"
    by fastforce
  from assms c l obtain a where r: "r = Inr a" and w2: "w2 = w1" and D: "D = ?D"
    by (cases r) (simp_all add: functional_unfold)
  from loop_ok [OF l [unfolded r w2]] obtain cs where
    "concat (map (subject_requests d ''https://osf.io/download/{}/'' verbose ?D osf_data)
       (map sid ps)) = map Inr cs" "log w1 = log ?w0 @ map FetchFiles cs"
    by blast
  then show ?thesis using D by auto
qed

lemma create_dirs_ok:
  assumes "create_dirs d w = (Inr (out, cache), w1)"
  shows "out = Path (Str d) (Str ''decoding'') \<and> cache = Path (Str d) (Str ''mask_cache'') \<and>
         log w1 = log w @ [Mkdir (Path (Str d) (Str ''decoding'')),
                           Mkdir (Path (Str d) (Str ''mask_cache''))]"
  using assms
  by (auto simp: create_dirs_def bind_Inr return_def call_mkdir_def Let_def split: sum.splits)

lemmas eval_defs = model_defs mkdir.simps mkdir_exist_ok_def os_mkdir_def exists_path_def
  is_dir_def parent_def target_fname_def

lemma pair_of_fst: "fst x = a \<Longrightarrow> x = (a, snd x)"
  by (cases x) simp

text \<open>
  C3, as the code has it: a call of \<^verbatim>\<open>fetch_hbnssi\<close> that returns has done, in
  this order: the dataset directory, the retrieval and the parsing of the participant
  registry, the one retrieval of the mask, the loading of the lookup table and the four
  requests of every subject in registry order, the two output directories (decoding,
  then mask\_cache); then it packages the result. The mask is retrieved before the
  per-subject fetch begins.
\<close>

theorem steps_in_order:
  assumes "fetch_hbnssi E data_dir resume verbose w = (Inr b, w')"
  shows "\<exists>d path osf_data cs.
           concat (map (subject_requests d ''https://osf.io/download/{}/'' verbose
             (Path (Str d) (Str ''derivatives'')) osf_data) (subjects b)) = map Inr cs \<and>
           log w' = log w @
             [GetDatasetDir ''hbnssi'' data_dir 1,
              FetchFiles \<lparr>fc_data_dir = d,
                fc_files = [(Str ''participants.csv'', ''https://osf.io/wtvh3/download'',
                             Str ''participants.csv'')],
                fc_resume = None, fc_verbose = verbose\<rparr>,
              CsvToArray path,
              FetchFiles \<lparr>fc_data_dir = d,
                fc_files = [(Str target_fname, ''https://osf.io/kp6m9/download'',
                             Str target_fname)],
                fc_resume = None, fc_verbose = verbose\<rparr>,
              CsvToArray (os_path_join (package_directory E) ''hbnssi.csv'')] @
             map FetchFiles cs @
             [Mkdir (Path (Str d) (Str ''decoding'')),
              Mkdir (Path (Str d) (Str ''mask_cache''))] \<and>
           out_dir b = Path (Str d) (Str ''decoding'') \<and>
           mask_cache b = Path (Str d) (Str ''mask_cache'')"
proof -
  from fetch_hbnssi_stages [OF assms] obtain d w1 ps w2 m w3 D w4 out cache where
    s1: "call_get_dataset_dir E ''hbnssi'' data_dir 1 w = (Inr d, w1)" and
    s2: "fetch_hbnssi_participants E d None verbose w1 = (Inr ps, w2)" and
    s3: "fetch_hbnssi_brain_mask E d None verbose w2 = (Inr m, w3)" and
    s4: "fetch_hbnssi_functional E ps d None resume verbose w3 = (Inr D, w4)" and
    s5: "create_dirs d w4 = (Inr (out, cache), w')" and
    b: "b = \<lparr>subjects = map sid ps, mask_file = m, task_dir = D, out_dir = out,
              mask_cache = cache\<rparr>"
    by blast
  from participants_ok [OF s2] obtain path where
    l2: "log w2 = log w1 @
             [FetchFiles \<lparr>fc_data_dir = d,
                fc_files = [(Str ''participants.csv'', ''https://osf.io/wtvh3/download'',
                             Str ''participants.csv'')],
                fc_resume = None, fc_verbose = verbose\<rparr>,
              CsvToArray path]"
    by blast
  from functional_ok [OF s4] obtain osf_data cs where
    rq: "concat (map (subject_requests d ''https://osf.io/download/{}/'' verbose
              (Path (Str d) (Str ''derivatives'')) osf_data) (map sid ps)) = map Inr cs" and
    l4: "log w4 = log w3 @
              CsvToArray (os_path_join (package_directory E) ''hbnssi.csv'') #
              map FetchFiles cs"
    by blast
  note l1 = get_dataset_dir_log [OF s1]
  note l3 = brain_mask_ok [OF s3]
  note l5 = create_dirs_ok [OF s5]
  show ?thesis
  proof (intro exI conjI)
    show "concat (map (subject_requests d ''https://osf.io/download/{}/'' verbose
             (Path (Str d) (Str ''derivatives'')) osf_data) (subjects b)) = map Inr cs"
      using rq b by simp
    show "log w' = log w @
             [GetDatasetDir ''hbnssi'' data_dir 1,
              FetchFiles \<lparr>fc_data_dir = d,
                fc_files = [(Str ''participants.csv'', ''https://osf.io/wtvh3/download'',
                             Str ''participants.csv'')],
                fc_resume = None, fc_verbose = verbose\<rparr>,
              CsvToArray path,
              FetchFiles \<lparr>fc_data_dir = d,
                fc_files = [(Str target_fname, ''https://osf.io/kp6m9/download'',
                             Str target_fname)],
                fc_resume = None, fc_verbose = verbose\<rparr>,
              CsvToArray (os_path_join (package_directory E) ''hbnssi.csv'')] @
             map FetchFiles cs @
             [Mkdir (Path (Str d) (Str ''decoding'')),
              Mkdir (Path (Str d) (Str ''mask_cache''))]"
      using l1 l2 l3 l4 l5 by simp
    show "out_dir b = Path (Str d) (Str ''decoding'')" using l5 b by simp
    show "mask_cache b = Path (Str d) (Str ''mask_cache'')" using l5 b by simp
  qed
qed

theorem steps_in_order_witness:
  "\<not> isl (fst (fetch_hbnssi (example_env two_subjects two_rows) (Some ''/d'') True 1
      empty_world)) \<and>
   map urls (fetch_calls (log (snd (fetch_hbnssi (example_env two_subjects two_rows)
      (Some ''/d'') True 1 empty_world)))) =
     [[''https://osf.io/wtvh3/download''], [''https://osf.io/kp6m9/download''],
      [''https://osf.io/download/k1/''], [''https://osf.io/download/k2/''],
      [''https://osf.io/download/k3/''], [''https://osf.io/download/k4/''],
      [''https://osf.io/download/m1/''], [''https://osf.io/download/m2/''],
      [''https://osf.io/download/m3/''], [''https://osf.io/download/m4/'']] \<and>
   (\<exists>d. drop 13 (log (snd (fetch_hbnssi (example_env two_subjects two_rows)
      (Some ''/d'') True 1 empty_world))) =
     [Mkdir (Path (Str d) (Str ''decoding'')), Mkdir (Path (Str d) (Str ''mask_cache''))])"
proof -
  let ?X = "fetch_hbnssi (example_env two_subjects two_rows) (Some ''/d'') True 1 empty_world"
  have f: "fst ?X =
     Inr \<lparr>subjects = [''A001'', ''A002''],
          mask_file = ''/d/hbnssi/tpl-MNI152NLin2009cAsym_res-3mm_label-GM_desc-thr02_probseg.nii.gz'',
          task_dir = \<lparr>anchor = ''/'', names = [''d'', ''hbnssi'', ''derivatives'']\<rparr>,
          out_dir = \<lparr>anchor = ''/'', names = [''d'', ''hbnssi'', ''decoding'']\<rparr>,
          mask_cache = \<lparr>anchor = ''/'', names = [''d'', ''hbnssi'', ''mask_cache'']\<rparr>\<rparr>"
    by (simp add: eval_defs example_defs path_defs format_simps two_subjects_def two_rows_def)
  from steps_in_order [OF pair_of_fst [OF f]] obtain d path osf_data cs where
    rq: "concat (map (subject_requests d ''https://osf.io/download/{}/'' 1
             (Path (Str d) (Str ''derivatives'')) osf_data) [''A001'', ''A002'']) = map Inr cs" and
    l: "log (snd ?X) = log empty_world @
             [GetDatasetDir ''hbnssi'' (Some ''/d'') 1,
              FetchFiles \<lparr>fc_data_dir = d,
                fc_files = [(Str ''participants.csv'', ''https://osf.io/wtvh3/download'',
                             Str ''participants.csv'')],
                fc_resume = None, fc_verbose = 1\<rparr>,
              CsvToArray path,
              FetchFiles \<lparr>fc_data_dir = d,
                fc_files = [(Str target_fname, ''https://osf.io/kp6m9/download'',
                             Str target_fname)],
                fc_resume = None, fc_verbose = 1\<rparr>,
              CsvToArray (os_path_join (package_directory (example_env two_subjects two_rows))
                ''hbnssi.csv'')] @
             map FetchFiles cs @
             [Mkdir (Path (Str d) (Str ''decoding'')),
              Mkdir (Path (Str d) (Str ''mask_cache''))]"
    by auto
  have "length cs = 8"
    using arg_cong [OF rq, of length] by (simp add: subject_requests_def Let_def)
  then have "drop 13 (log (snd ?X)) =
     [Mkdir (Path (Str d) (Str ''decoding'')), Mkdir (Path (Str d) (Str ''mask_cache''))]"
    using l by (simp add: empty_world_def)
  moreover have "map urls (fetch_calls (log (snd ?X))) =
     [[''https://osf.io/wtvh3/download''], [''https://osf.io/kp6m9/download''],
      [''https://osf.io/download/k1/''], [''https://osf.io/download/k2/''],
      [''https://osf.io/download/k3/''], [''https://osf.io/download/k4/''],
      [''https://osf.io/download/m1/''], [''https://osf.io/download/m2/''],
      [''https://osf.io/download/m3/''], [''https://osf.io/download/m4/'']]"
    by (simp add: eval_defs example_defs path_defs format_simps two_subjects_def two_rows_def)
  ultimately show ?thesis using f by auto
qed

text \<open>
  C3 as stated puts the mask retrieval after the per-subject fetch. In the code it comes
  before: in a run for one subject the address of the mask is the second one requested,
  ahead of the subject's four.
\<close>

theorem mask_before_subjects:
  "map urls (fetch_calls (log (snd (fetch_hbnssi
       (example_env [subject ''A001''] [keys ''A001'' ''k1'' ''k2'' ''k3'' ''k4''])
       (Some ''/d'') True 1 empty_world)))) =
     [[''https://osf.io/wtvh3/download''], [''https://osf.io/kp6m9/download''],
      [''https://osf.io/download/k1/''], [''https://osf.io/download/k2/''],
      [''https://osf.io/download/k3/''], [''https://osf.io/download/k4/'']] \<and>
   \<not> isl (fst (fetch_hbnssi
       (example_env [subject ''A001''] [keys ''A001'' ''k1'' ''k2'' ''k3'' ''k4''])
       (Some ''/d'') True 1 empty_world))"
  by (simp add: eval_defs example_defs path_defs format_simps)

text \<open>
  C7: the result of a call that returns holds the subject ids of the participants that
  the registry loader returned, in their order, the path that the mask retrieval
  returned, and the derivatives, decoding and mask\_cache directories under the dataset
  directory. For the registry of A001 and A002 the subjects are A001, A002.
\<close>

theorem result_fields:
  assumes "fetch_hbnssi E data_dir resume verbose w = (Inr b, w')"
  shows "\<exists>d w1 ps w2 m w3.
           call_get_dataset_dir E ''hbnssi'' data_dir 1 w = (Inr d, w1) \<and>
           fetch_hbnssi_participants E d None verbose w1 = (Inr ps, w2) \<and>
           fetch_hbnssi_brain_mask E d None verbose w2 = (Inr m, w3) \<and>
           b = \<lparr>subjects = map sid ps, mask_file = m,
                 task_dir = Path (Str d) (Str ''derivatives''),
                 out_dir = Path (Str d) (Str ''decoding''),
                 mask_cache = Path (Str d) (Str ''mask_cache'')\<rparr>"
proof -
  from fetch_hbnssi_stages [OF assms] obtain d w1 ps w2 m w3 D w4 out cache where
    s1: "call_get_dataset_dir E ''hbnssi'' data_dir 1 w = (Inr d, w1)" and
    s2: "fetch_hbnssi_participants E d None verbose w1 = (Inr ps, w2)" and
    s3: "fetch_hbnssi_brain_mask E d None verbose w2 = (Inr m, w3)" and
    s4: "fetch_hbnssi_functional E ps d None resume verbose w3 = (Inr D, w4)" and
    s5: "create_dirs d w4 = (Inr (out, cache), w')" and
    b: "b = \<lparr>subjects = map sid ps, mask_file = m, task_dir = D, out_dir = out,
              mask_cache = cache\<rparr>"
    by blast
  from functional_ok [OF s4] have "D = Path (Str d) (Str ''derivatives'')" by blast
  moreover from create_dirs_ok [OF s5] have
    "out = Path (Str d) (Str ''decoding'')" "cache = Path (Str d) (Str ''mask_cache'')"
    by blast+
  ultimately show ?thesis using s1 s2 s3 b by blast
qed

theorem result_fields_witness:
  "fst (fetch_hbnssi (example_env two_subjects two_rows) (Some ''/d'') True 1 empty_world) =
     Inr \<lparr>subjects = [''A001'', ''A002''],
          mask_file = ''/d/hbnssi/tpl-MNI152NLin2009cAsym_res-3mm_label-GM_desc-thr02_probseg.nii.gz'',
          task_dir = \<lparr>anchor = ''/'', names = [''d'', ''hbnssi'', ''derivatives'']\<rparr>,
          out_dir = \<lparr>anchor = ''/'', names = [''d'', ''hbnssi'', ''decoding'']\<rparr>,
          mask_cache = \<lparr>anchor = ''/'', names = [''d'', ''hbnssi'', ''mask_cache'']\<rparr>\<rparr> \<and>
   (\<exists>d w1 ps w2 m w3.
      call_get_dataset_dir (example_env two_subjects two_rows) ''hbnssi'' (Some ''/d'') 1
        empty_world = (Inr d, w1) \<and>
      fetch_hbnssi_participants (example_env two_subjects two_rows) d None 1 w1 = (Inr ps, w2) \<and>
      fetch_hbnssi_brain_mask (example_env two_subjects two_rows) d None 1 w2 = (Inr m, w3) \<and>
      \<lparr>subjects = [''A001'', ''A002''],
          mask_file = ''/d/hbnssi/tpl-MNI152NLin2009cAsym_res-3mm_label-GM_desc-thr02_probseg.nii.gz'',
          task_dir = \<lparr>anchor = ''/'', names = [''d'', ''hbnssi'', ''derivatives'']\<rparr>,
          out_dir = \<lparr>anchor = ''/'', names = [''d'', ''hbnssi'', ''decoding'']\<rparr>,
          mask_cache = \<lparr>anchor = ''/'', names = [''d'', ''hbnssi'', ''mask_cache'']\<rparr>\<rparr> =
      \<lparr>subjects = map sid ps, mask_file = m,
         task_dir = Path (Str d) (Str ''derivatives''),
         out_dir = Path (Str d) (Str ''decoding''),
         mask_cache = Path (Str d) (Str ''mask_cache'')\<rparr>)"
proof -
  have f: "fst (fetch_hbnssi (example_env two_subjects two_rows) (Some ''/d'') True 1
      empty_world) =
     Inr \<lparr>subjects = [''A001'', ''A002''],
          mask_file = ''/d/hbnssi/tpl-MNI152NLin2009cAsym_res-3mm_label-GM_desc-thr02_probseg.nii.gz'',
          task_dir = \<lparr>anchor = ''/'', names = [''d'', ''hbnssi'', ''derivatives'']\<rparr>,
          out_dir = \<lparr>anchor = ''/'', names = [''d'', ''hbnssi'', ''decoding'']\<rparr>,
          mask_cache = \<lparr>anchor = ''/'', names = [''d'', ''hbnssi'', ''mask_cache'']\<rparr>\<rparr>"
    by (simp add: eval_defs example_defs path_defs format_simps two_subjects_def two_rows_def)
  show ?thesis
    using f result_fields [OF pair_of_fst [OF f]] by blast
qed

subsection \<open>Local paths of a run\<close>

lemma functional_log:
  "\<exists>es. log (snd (fetch_hbnssi_functional E ps data_dir url resume verbose w)) = log w @ es"
proof -
  let ?path = "os_path_join (package_directory E) ''hbnssi.csv''"
  let ?w0 = "w\<lparr>log := log w @ [CsvToArray ?path]\<rparr>"
  let ?u = "case url of None \<Rightarrow> ''https://osf.io/download/{}/'' | Some u \<Rightarrow> u"
  let ?D = "Path (Str data_dir) (Str ''derivatives'')"
  let ?acc = "\<lparr>align = [], decode = [], labels = [], sessions = []\<rparr>"
  show ?thesis
  proof (cases "csv_osf E w ?path")
    case (Inl e)
    then show ?thesis by (simp add: functional_unfold)
  next
    case (Inr osf_data)
    obtain r w1 where l: "loop E data_dir ?u verbose ?D osf_data (map sid ps) ?acc ?w0 = (r, w1)"
      by fastforce
    from loop_log [of E data_dir ?u verbose ?D osf_data "map sid ps" ?acc ?w0] l
    obtain k where "log w1 = log ?w0 @ map FetchFiles (take k (until_error
        (concat (map (subject_requests data_dir ?u verbose ?D osf_data) (map sid ps)))))"
      by fastforce
    then have "\<exists>es. log w1 = log w @ es" by simp
    then show ?thesis
      using Inr l by (cases r) (simp_all add: functional_unfold)
  qed
qed

lemma derive_components:
  assumes "CHR ''/'' \<notin> set s"
  shows "derive data_dir s k =
           \<lparr>anchor = anchor (parse_part data_dir),
            names = names (parse_part data_dir) @ [''derivatives'', file_name k s]\<rparr>"
proof -
  have "parse_part ''derivatives'' = \<lparr>anchor = [], names = [''derivatives'']\<rparr>"
    by (simp add: parse_part_def splitroot_def)
  then have "Path (Str data_dir) (Str ''derivatives'') =
      \<lparr>anchor = anchor (parse_part data_dir),
       names = names (parse_part data_dir) @ [''derivatives'']\<rparr>"
    by (simp add: Path_def as_path_def joinpath_def)
  then show ?thesis
    by (simp add: derive_def Path_file_name [OF assms])
qed

text \<open>
  C5: the local path of an artifact is a function of the subject id and the kind alone,
  under the dataset root. Whatever the collaborators return and whatever the lookup
  table and the address template are, the names that
  \<^verbatim>\<open>_fetch_hbnssi_functional\<close> asks for are, one for each call it issues and
  in order, the derived paths of its subjects; when it returns, they are the derived
  paths of all four kinds of every subject. The derived path is the derivatives
  directory of the dataset root joined with the file name of the kind with the subject
  id substituted: for an id without a separator, the components of the root, then
  \<^verbatim>\<open>derivatives\<close>, then the file name.
\<close>

theorem local_paths_are_derived:
  "(\<exists>cs. fetch_calls (log (snd (fetch_hbnssi_functional E ps data_dir url resume verbose w))) =
          fetch_calls (log w) @ cs \<and>
        map targets cs =
          take (length cs) (concat (map (\<lambda>s. map (\<lambda>k. [PathObj (derive data_dir s k)])
            [Raiders, Flanker, Condition, Run]) (map sid ps)))) \<and>
   ((\<exists>d. fst (fetch_hbnssi_functional E ps data_dir url resume verbose w) = Inr d) \<longrightarrow>
      (\<exists>cs. fetch_calls (log (snd (fetch_hbnssi_functional E ps data_dir url resume verbose w))) =
          fetch_calls (log w) @ cs \<and>
        map targets cs =
          concat (map (\<lambda>s. map (\<lambda>k. [PathObj (derive data_dir s k)])
            [Raiders, Flanker, Condition, Run]) (map sid ps)))) \<and>
   (CHR ''/'' \<notin> set s \<longrightarrow>
      derive data_dir s k =
        \<lparr>anchor = anchor (parse_part data_dir),
         names = names (parse_part data_dir) @ [''derivatives'', file_name k s]\<rparr>)"
proof (intro conjI)
  let ?X = "fetch_hbnssi_functional E ps data_dir url resume verbose w"
  let ?T = "concat (map (\<lambda>s. map (\<lambda>k. [PathObj (derive data_dir s k)])
            [Raiders, Flanker, Condition, Run]) (map sid ps))"
  from functional_log [of E ps data_dir url resume verbose w] obtain es where
    es: "log (snd ?X) = log w @ es" by blast
  then have fc: "fetch_calls (log (snd ?X)) = fetch_calls (log w) @ fetch_calls es"
    by (simp add: fetch_calls_append)
  from functional_targets [of E ps data_dir url resume verbose w]
  obtain n where "map targets (fetch_calls (log (snd ?X))) =
      map targets (fetch_calls (log w)) @ take n ?T"
    by blast
  then have n: "map targets (fetch_calls es) = take n ?T"
    using fc by simp
  have "length (fetch_calls es) = length (take n ?T)"
    using arg_cong [OF n, of length] by simp
  then have "take (length (fetch_calls es)) ?T = take n ?T"
    by (simp add: min_def)
  with n fc show "\<exists>cs. fetch_calls (log (snd ?X)) = fetch_calls (log w) @ cs \<and>
        map targets cs = take (length cs) ?T"
    by auto
  show "(\<exists>d. fst ?X = Inr d) \<longrightarrow>
      (\<exists>cs. fetch_calls (log (snd ?X)) = fetch_calls (log w) @ cs \<and> map targets cs = ?T)"
  proof
    assume "\<exists>d. fst ?X = Inr d"
    then obtain d where d: "?X = (Inr d, snd ?X)"
      by (metis prod.collapse)
    have "map targets (fetch_calls (log (snd ?X))) =
        map targets (fetch_calls (log w)) @ ?T"
      using functional_targets [of E ps data_dir url resume verbose w, THEN conjunct2]
      by (subst (asm) d) simp
    then have "map targets (fetch_calls es) = ?T"
      using fc by simp
    with fc show "\<exists>cs. fetch_calls (log (snd ?X)) = fetch_calls (log w) @ cs \<and>
        map targets cs = ?T"
      by blast
  qed
  show "CHR ''/'' \<notin> set s \<longrightarrow>
      derive data_dir s k =
        \<lparr>anchor = anchor (parse_part data_dir),
         names = names (parse_part data_dir) @ [''derivatives'', file_name k s]\<rparr>"
    using derive_components by blast
qed


theorem local_paths_are_derived_witness:
  "fst (fetch_hbnssi_functional (example_env two_subjects two_rows) two_subjects ''/d'' None
     True 1 empty_world) = Inr \<lparr>anchor = ''/'', names = [''d'', ''derivatives'']\<rparr> \<and>
   map targets (fetch_calls (log (snd (fetch_hbnssi_functional
     (example_env two_subjects two_rows) two_subjects ''/d'' None True 1 empty_world)))) =
   [[PathObj \<lparr>anchor = ''/'', names = [''d'', ''derivatives'',
       ''sub-A001_task-RAIDERS_space-MNI152NLin2009cAsym_desc-postproc_bold.nii.gz'']\<rparr>],
    [PathObj \<lparr>anchor = ''/'', names = [''d'', ''derivatives'',
       ''sub-A001_task-FLANKERTASK_space-MNI152NLin2009cAsym_desc-postproc_bold.nii.gz'']\<rparr>],
    [PathObj \<lparr>anchor = ''/'', names = [''d'', ''derivatives'', ''sub-A001_labels.csv'']\<rparr>],
    [PathObj \<lparr>anchor = ''/'', names = [''d'', ''derivatives'', ''sub-A001_runs.csv'']\<rparr>],
    [PathObj \<lparr>anchor = ''/'', names = [''d'', ''derivatives'',
       ''sub-A002_task-RAIDERS_space-MNI152NLin2009cAsym_desc-postproc_bold.nii.gz'']\<rparr>],
    [PathObj \<lparr>anchor = ''/'', names = [''d'', ''derivatives'',
       ''sub-A002_task-FLANKERTASK_space-MNI152NLin2009cAsym_desc-postproc_bold.nii.gz'']\<rparr>],
    [PathObj \<lparr>anchor = ''/'', names = [''d'', ''derivatives'', ''sub-A002_labels.csv'']\<rparr>],
    [PathObj \<lparr>anchor = ''/'', names = [''d'', ''derivatives'', ''sub-A002_runs.csv'']\<rparr>]]"
proof -
  let ?X = "fetch_hbnssi_functional (example_env two_subjects two_rows) two_subjects ''/d'' None
     True 1 empty_world"
  have f: "fst ?X = Inr \<lparr>anchor = ''/'', names = [''d'', ''derivatives'']\<rparr>"
    by (simp add: model_defs example_defs path_defs format_simps two_subjects_def two_rows_def)
  then have "\<exists>d. fst ?X = Inr d" by blast
  with local_paths_are_derived [of "example_env two_subjects two_rows" two_subjects "''/d''" None True 1
      empty_world "''A001''" Raiders]
  obtain cs where
    "fetch_calls (log (snd ?X)) = fetch_calls (log empty_world) @ cs"
    "map targets cs = concat (map (\<lambda>s. map (\<lambda>k. [PathObj (derive ''/d'' s k)])
            [Raiders, Flanker, Condition, Run]) (map sid two_subjects))"
    by blast
  then have "map targets (fetch_calls (log (snd ?X))) =
      concat (map (\<lambda>s. map (\<lambda>k. [PathObj (derive ''/d'' s k)])
            [Raiders, Flanker, Condition, Run]) (map sid two_subjects))"
    by (simp add: empty_world_def)
  also have "\<dots> =
   [[PathObj \<lparr>anchor = ''/'', names = [''d'', ''derivatives'',
       ''sub-A001_task-RAIDERS_space-MNI152NLin2009cAsym_desc-postproc_bold.nii.gz'']\<rparr>],
    [PathObj \<lparr>anchor = ''/'', names = [''d'', ''derivatives'',
       ''sub-A001_task-FLANKERTASK_space-MNI152NLin2009cAsym_desc-postproc_bold.nii.gz'']\<rparr>],
    [PathObj \<lparr>anchor = ''/'', names = [''d'', ''derivatives'', ''sub-A001_labels.csv'']\<rparr>],
    [PathObj \<lparr>anchor = ''/'', names = [''d'', ''derivatives'', ''sub-A001_runs.csv'']\<rparr>],
    [PathObj \<lparr>anchor = ''/'', names = [''d'', ''derivatives'',
       ''sub-A002_task-RAIDERS_space-MNI152NLin2009cAsym_desc-postproc_bold.nii.gz'']\<rparr>],
    [PathObj \<lparr>anchor = ''/'', names = [''d'', ''derivatives'',
       ''sub-A002_task-FLANKERTASK_space-MNI152NLin2009cAsym_desc-postproc_bold.nii.gz'']\<rparr>],
    [PathObj \<lparr>anchor = ''/'', names = [''d'', ''derivatives'', ''sub-A002_labels.csv'']\<rparr>],
    [PathObj \<lparr>anchor = ''/'', names = [''d'', ''derivatives'', ''sub-A002_runs.csv'']\<rparr>]]"
    by (simp add: derive_components two_subjects_def subject_def file_name_def parse_part_def
        splitroot_def)
  finally show ?thesis using f by simp
qed

subsection \<open>The output directories\<close>




















lemmas dir_defs = mkdir.simps mkdir_exist_ok_def os_mkdir_def exists_path_def
  is_dir_def parent_def can_make_def ancestors_def decoding_path_def mask_cache_path_def

lemma example_paths:
  "Path (Str ''/d/hbnssi'') (Str ''decoding'') = decoding_path"
  "Path (Str ''/d/hbnssi'') (Str ''mask_cache'') = mask_cache_path"
  by (simp_all add: path_defs decoding_path_def mask_cache_path_def)


text \<open>A file where a directory should be is not covered: the call raises.\<close>

lemma create_dirs_file_in_the_way:
  "fst (create_dirs ''/d/hbnssi''
     \<lparr>fs = [\<lparr>anchor = ''/'', names = [''d'']\<rparr> \<mapsto> Dir,
             \<lparr>anchor = ''/'', names = [''d'', ''hbnssi'']\<rparr> \<mapsto> Dir,
             decoding_path \<mapsto> File],
      log = []\<rparr>) = Inl FileExistsError"
  by (simp add: create_dirs_def call_mkdir_def bind_def return_def example_paths dir_defs)

end
